theory Spec2Isabelle
  imports Complex_Main "HOL-Library.AList" "HOL-Library.Product_Lexorder"
    "HOL-Library.Char_ord" "HOL-Library.List_Lexorder"
begin

section \<open>Python values, exceptions and dictionaries\<close>

text \<open>
  The cell values that travel through the pipeline. A Python \<open>float\<close> is either the
  NaN or a number; numbers are kept exact (a real), so rounding of the binary
  floating-point format is outside the model.
\<close>

datatype pyfloat = NaN | Num real

datatype pyval = PyNone | PyFloat pyfloat | PyInt int | PyStr string | PyDatetime nat

text \<open>The exceptions the modelled code can raise.\<close>

datatype exn =
    IndexError
  | KeyError
  | ValueError
  | AttributeError
  | TypeError
  | ZeroDivisionError
  | MySQLdb_Error
  | OtherException

text \<open>
  A Python \<open>dict\<close> keeps insertion order, so it is an association list with distinct
  keys: \<open>map_of\<close> reads it and \<open>AList.update\<close> writes it (in place for a
  known key, at the end for a new one).
\<close>

type_synonym ('k, 'v) dict = "('k \<times> 'v) list"

section \<open>Strings and regular expressions\<close>

text \<open>
  Names are ASCII strings. \<open>lower_char\<close> and \<open>upper_char\<close> are \<open>str.lower\<close> and
  \<open>str.upper\<close> on one ASCII character; every other character is left as it is.
\<close>

definition upper_letters :: string where
  "upper_letters = ''ABCDEFGHIJKLMNOPQRSTUVWXYZ''"

definition lower_letters :: string where
  "lower_letters = ''abcdefghijklmnopqrstuvwxyz''"

definition digit_chars :: string where
  "digit_chars = ''0123456789''"

definition alnum_chars :: string where
  "alnum_chars = upper_letters @ lower_letters @ digit_chars"

definition lower_char :: "char \<Rightarrow> char" where
  "lower_char c = (case map_of (zip upper_letters lower_letters) c of Some d \<Rightarrow> d | None \<Rightarrow> c)"

definition upper_char :: "char \<Rightarrow> char" where
  "upper_char c = (case map_of (zip lower_letters upper_letters) c of Some d \<Rightarrow> d | None \<Rightarrow> c)"

definition str_lower :: "string \<Rightarrow> string" where
  "str_lower s = map lower_char s"

text \<open>\<open>int(s)\<close> on a string of decimal digits.\<close>

definition digit_val :: "char \<Rightarrow> nat" where
  "digit_val c = (case map_of (zip digit_chars [0 ..< 10]) c of Some d \<Rightarrow> d | None \<Rightarrow> 0)"

definition py_int :: "string \<Rightarrow> nat" where
  "py_int s = foldl (\<lambda>n c. 10 * n + digit_val c) 0 s"

text \<open>
  The regular expressions the code uses are built from character classes, sequence,
  alternation, a repeated class (\<open>[...]+\<close>), capture groups and \<open>$\<close>. \<open>run p s\<close>
  is the backtracking matcher of Python's \<open>re\<close>: it lists, in the order in which the
  matcher tries them (a repetition is greedy: longest first), every way of matching
  \<open>p\<close> at the start of \<open>s\<close>, as the captured groups and the rest of the string.
  \<open>$\<close> matches at the end of the string and before a final line feed.
\<close>

datatype rexp =
    Eps
  | Cls "char list"
  | Seq rexp rexp
  | Alt rexp rexp
  | Plus "char list"
  | Group rexp
  | Eol

definition plus_run :: "char list \<Rightarrow> string \<Rightarrow> (string list \<times> string) list" where
  "plus_run cs s =
     map (\<lambda>k. ([], drop k s)) (rev [1 ..< Suc (length (takeWhile (\<lambda>c. c \<in> set cs) s))])"

fun run :: "rexp \<Rightarrow> string \<Rightarrow> (string list \<times> string) list" where
  "run Eps s = [([], s)]"
| "run (Cls cs) s = (case s of [] \<Rightarrow> [] | c # t \<Rightarrow> if c \<in> set cs then [([], t)] else [])"
| "run (Seq a b) s =
     concat (map (\<lambda>(g1, m). map (\<lambda>(g2, t). (g1 @ g2, t)) (run b m)) (run a s))"
| "run (Alt a b) s = run a s @ run b s"
| "run (Plus cs) s = plus_run cs s"
| "run (Group r) s = map (\<lambda>(g, t). (take (length s - length t) s # g, t)) (run r s)"
| "run Eol s = (if s = [] \<or> s = [CHR 0x0A] then [([], s)] else [])"

text \<open>A literal under \<open>re.IGNORECASE\<close>: each character in either case.\<close>

fun lit_ci :: "string \<Rightarrow> rexp" where
  "lit_ci [] = Eps"
| "lit_ci (c # cs) = Seq (Cls [lower_char c, upper_char c]) (lit_ci cs)"

text \<open>
  \<open>re.match\<close> (at the start of the string) and \<open>re.search\<close> (at the leftmost
  position that matches); the result is the list of the groups, \<open>None\<close> for no match.
\<close>

definition re_match :: "rexp \<Rightarrow> string \<Rightarrow> string list option" where
  "re_match p s = (case run p s of [] \<Rightarrow> None | (g, _) # _ \<Rightarrow> Some g)"

fun re_search :: "rexp \<Rightarrow> string \<Rightarrow> string list option" where
  "re_search p [] = re_match p []"
| "re_search p (c # s) =
     (case re_match p (c # s) of Some g \<Rightarrow> Some g | None \<Rightarrow> re_search p s)"

text \<open>
  \<open>re.sub(p, '', s)\<close> for a pattern that ends in \<open>$\<close>: the leftmost match is cut
  out (a second match cannot follow it).
\<close>

fun re_sub_empty :: "rexp \<Rightarrow> string \<Rightarrow> string" where
  "re_sub_empty p [] = []"
| "re_sub_empty p (c # s) =
     (case run p (c # s) of (_, t) # _ \<Rightarrow> t | [] \<Rightarrow> c # re_sub_empty p s)"

definition digits4 :: rexp where
  "digits4 = Seq (Cls digit_chars) (Seq (Cls digit_chars) (Seq (Cls digit_chars) (Cls digit_chars)))"

section \<open>Table Selector (extractor config.py and tools.py)\<close>

text \<open>
  The category patterns of config.py, all compiled with \<open>re.IGNORECASE\<close>:
  \<^verbatim>\<open>^(CALIS|MEIND|RAIND)[-_]APG43[_-]5_S\d+_A\d{4}$\<close>, the same with 15, and
  \<^verbatim>\<open>^([A-Za-z0-9]+)MGW_S\d+_A\d{4}$\<close>.
\<close>

datatype category = Min5 | Min15 | Mgw

definition week_year_tail :: rexp where
  "week_year_tail =
     Seq (lit_ci ''_S'') (Seq (Plus digit_chars) (Seq (lit_ci ''_A'') (Seq digits4 Eol)))"

definition node_group :: rexp where
  "node_group = Group (Alt (lit_ci ''CALIS'') (Alt (lit_ci ''MEIND'') (lit_ci ''RAIND'')))"

definition apg43_pattern :: "string \<Rightarrow> rexp" where
  "apg43_pattern cadence =
     Seq node_group (Seq (Cls ''-_'') (Seq (lit_ci ''APG43'') (Seq (Cls ''_-'')
       (Seq (lit_ci cadence) week_year_tail))))"

fun patterns :: "category \<Rightarrow> rexp" where
  "patterns Min5 = apg43_pattern ''5''"
| "patterns Min15 = apg43_pattern ''15''"
| "patterns Mgw = Seq (Group (Plus alnum_chars)) (Seq (lit_ci ''MGW'') week_year_tail)"

text \<open>
  The three expressions of tools.py that read a name:
  \<^verbatim>\<open>_S(\d+)_A(\d{4})$\<close>, \<^verbatim>\<open>_A(\d{4})$\<close> and \<^verbatim>\<open>_S(\d+)_\<close>, with
  \<open>re.IGNORECASE\<close>.
\<close>

definition re_week_year :: rexp where
  "re_week_year =
     Seq (lit_ci ''_S'') (Seq (Group (Plus digit_chars)) (Seq (lit_ci ''_A'')
       (Seq (Group digits4) Eol)))"

definition re_year :: rexp where
  "re_year = Seq (lit_ci ''_A'') (Seq (Group digits4) Eol)"

definition re_week :: rexp where
  "re_week = Seq (lit_ci ''_S'') (Seq (Group (Plus digit_chars)) (lit_ci ''_''))"

text \<open>
  Dates are proleptic Gregorian ordinals, as \<open>date.toordinal\<close> counts them (day 1 is
  0001-01-01); a datetime is a day and the seconds into it, ordered lexicographically.
\<close>

type_synonym datetime = "int \<times> nat"

definition isleap :: "int \<Rightarrow> bool" where
  "isleap y = (y mod 4 = 0 \<and> (y mod 100 \<noteq> 0 \<or> y mod 400 = 0))"

definition days_before_year :: "int \<Rightarrow> int" where
  "days_before_year y = (y - 1) * 365 + (y - 1) div 4 - (y - 1) div 100 + (y - 1) div 400"

definition jan1 :: "int \<Rightarrow> int" where
  "jan1 y = days_before_year y + 1"

definition weekday :: "int \<Rightarrow> int" where
  "weekday ordinal = (ordinal + 6) mod 7"

definition START_DATE :: datetime where
  "START_DATE = (jan1 2024, 0)"

text \<open>
  \<^verbatim>\<open>datetime.strptime(f"{year}-W{week}-1", "%Y-W%W-%w")\<close>, as the standard library
  computes it. The year is printed without leading zeros and \<open>%Y\<close> reads exactly four
  digits; \<open>%W\<close> reads a week from 0 to 53; weekday 1 is Monday. The day of the year is
  \<open>_calc_julian_from_U_or_W\<close>: week 1 starts at the first Monday of the year, and the
  Monday of week 0 lies in the year before unless the year starts on a Monday. A date
  outside years 1 to 9999 is a ValueError.
\<close>

definition strptime_monday :: "nat \<Rightarrow> nat \<Rightarrow> exn + int" where
  "strptime_monday year week =
     (if year < 1000 \<or> 9999 < year \<or> 53 < week then Inl ValueError
      else
        let y = int year;
            first_weekday = weekday (jan1 y);
            week_0_length = (7 - first_weekday) mod 7;
            julian = (if week = 0 then 1 + 0 - first_weekday
                      else 1 + (week_0_length + 7 * (int week - 1)) + 0);
            y' = (if julian \<le> 0 then y - 1 else y);
            julian' = (if julian \<le> 0 then julian + (if isleap (y - 1) then 366 else 365)
                       else julian);
            ordinal = (julian' - 1) + jan1 y'
        in if ordinal < 1 \<or> 3652059 < ordinal then Inl ValueError else Inr ordinal)"

text \<open>\<open>filter_tables\<close>: the names that \<open>re.match\<close> accepts.\<close>

definition filter_tables :: "string list \<Rightarrow> rexp \<Rightarrow> string list" where
  "filter_tables table_names pattern = filter (\<lambda>table. re_match pattern table \<noteq> None) table_names"

text \<open>
  \<open>filter_by_start_date\<close> decides each table on its own; the four outcomes are the
  four branches of the loop body. A table is kept when its date is on or after the start
  date; \<open>InvalidDate\<close> (the ValueError of strptime) and \<open>NoFormat\<close> log a warning.
\<close>

datatype date_verdict = Including | Skipping | InvalidDate | NoFormat

definition table_verdict :: "string \<Rightarrow> datetime \<Rightarrow> date_verdict" where
  "table_verdict table start_date =
     (case re_search re_week_year table of
        Some [w, y] \<Rightarrow>
          (case strptime_monday (py_int y) (py_int w) of
             Inr table_date \<Rightarrow> if start_date \<le> (table_date, 0) then Including else Skipping
           | Inl _ \<Rightarrow> InvalidDate)
      | _ \<Rightarrow> NoFormat)"

definition filter_by_start_date :: "string list \<Rightarrow> datetime \<Rightarrow> string list" where
  "filter_by_start_date tables start_date =
     filter (\<lambda>table. table_verdict table start_date = Including) tables"

definition date_warnings :: "string list \<Rightarrow> datetime \<Rightarrow> string list" where
  "date_warnings tables start_date =
     filter (\<lambda>table. table_verdict table start_date \<in> {InvalidDate, NoFormat}) tables"

text \<open>
  \<open>sort_by_year_and_week\<close>: the key of a name is the year that \<^verbatim>\<open>_A(\d{4})$\<close>
  finds and the week that the first \<^verbatim>\<open>_S(\d+)_\<close> finds; \<open>.group\<close> on a failed
  search is an AttributeError, which is logged and raised again. \<open>sorted\<close> is stable.
\<close>

definition year_week_key :: "string \<Rightarrow> exn + (nat \<times> nat)" where
  "year_week_key x =
     (case re_search re_year x of
        Some (y # _) \<Rightarrow>
          (case re_search re_week x of
             Some (w # _) \<Rightarrow> Inr (py_int y, py_int w)
           | _ \<Rightarrow> Inl AttributeError)
      | _ \<Rightarrow> Inl AttributeError)"

definition sort_by_year_and_week :: "string list \<Rightarrow> exn + string list" where
  "sort_by_year_and_week tables =
     (if list_all (\<lambda>x. \<not> isl (year_week_key x)) tables
      then Inr (sort_key (\<lambda>x. projr (year_week_key x)) tables)
      else Inl AttributeError)"

text \<open>
  \<open>process_tables_names\<close>. The three sorted lists are written to the selection
  manifest files of their categories; the list that is returned is the 5-minute one,
  sorted once more.
\<close>

record selection =
  manifest_5min :: "string list"
  manifest_15min :: "string list"
  manifest_mgw :: "string list"
  unified_sorted_tables :: "string list"
  warned :: "string list"

definition select_category :: "string list \<Rightarrow> rexp \<Rightarrow> datetime \<Rightarrow> exn + string list" where
  "select_category table_names pattern start_date =
     sort_by_year_and_week (filter_by_start_date (filter_tables table_names pattern) start_date)"

definition process_tables_names ::
  "string list \<Rightarrow> (category \<Rightarrow> rexp) \<Rightarrow> datetime \<Rightarrow> exn + selection" where
  "process_tables_names table_names pats start_date =
     (let filtered_5min = filter_tables table_names (pats Min5);
          filtered_15min = filter_tables table_names (pats Min15);
          filtered_mgw = filter_tables table_names (pats Mgw);
          filtered_5min_by_date = filter_by_start_date filtered_5min start_date;
          filtered_15min_by_date = filter_by_start_date filtered_15min start_date;
          filtered_mgw_by_date = filter_by_start_date filtered_mgw start_date
      in case sort_by_year_and_week filtered_5min_by_date of
           Inl e \<Rightarrow> Inl e
         | Inr sorted_5min \<Rightarrow>
         (case sort_by_year_and_week filtered_15min_by_date of
           Inl e \<Rightarrow> Inl e
         | Inr sorted_15min \<Rightarrow>
         (case sort_by_year_and_week filtered_mgw_by_date of
           Inl e \<Rightarrow> Inl e
         | Inr sorted_mgw \<Rightarrow>
         (case sort_by_year_and_week sorted_5min of
           Inl e \<Rightarrow> Inl e
         | Inr unified \<Rightarrow>
             Inr \<lparr>manifest_5min = sorted_5min, manifest_15min = sorted_15min,
                  manifest_mgw = sorted_mgw, unified_sorted_tables = unified,
                  warned = date_warnings filtered_5min start_date
                    @ date_warnings filtered_15min start_date
                    @ date_warnings filtered_mgw start_date\<rparr>))))"

section \<open>Extractor: loading a batch into the destination (tools.py)\<close>

text \<open>
  A tuple of a batch is a list of cell values. The destination database maps a table name
  to its rows; \<open>None\<close> is a table that does not exist yet.
\<close>

type_synonym row = "pyval list"

type_synonym database = "string \<rightharpoonup> row list"

text \<open>\<open>isinstance(val, float) and math.isnan(val)\<close> of the NaN sanitisation.\<close>

fun is_float_nan :: "pyval \<Rightarrow> bool" where
  "is_float_nan (PyFloat NaN) = True"
| "is_float_nan _ = False"

definition sanitize_val :: "pyval \<Rightarrow> pyval" where
  "sanitize_val v = (if is_float_nan v then PyNone else v)"

definition sanitize_row :: "row \<Rightarrow> row" where
  "sanitize_row r = map sanitize_val r"

definition sanitize_batch :: "row list \<Rightarrow> row list" where
  "sanitize_batch batch = map sanitize_row batch"

text \<open>
  \<open>SHOW TABLES LIKE\<close> followed by \<open>CREATE TABLE\<close> and its commit: the table
  exists afterwards. (The LIKE pattern is read as the exact name.)
\<close>

definition create_if_absent :: "string \<Rightarrow> database \<Rightarrow> database" where
  "create_if_absent target_table db =
     (case db target_table of None \<Rightarrow> db(target_table \<mapsto> []) | Some _ \<Rightarrow> db)"

definition table_rows :: "database \<Rightarrow> string \<Rightarrow> row list" where
  "table_rows db t = (case db t of None \<Rightarrow> [] | Some rs \<Rightarrow> rs)"

text \<open>
  \<open>load_batch_into_database(batch, target_db, target_table)\<close>. The table is created
  (and committed) first. \<open>batch[0]\<close> raises IndexError on an empty batch, which the
  \<open>except MySQLdb.Error\<close> clause does not catch. The INSERT names the three columns
  Date, indicateur, valeur and has \<open>len(batch[0])\<close> placeholders: a tuple that does
  not have three cells makes the statement fail with a MySQLdb error, which rolls the
  insert back and is raised again. Otherwise the sanitised tuples are appended.
\<close>

definition load_batch_into_database ::
  "row list \<Rightarrow> database \<Rightarrow> string \<Rightarrow> (exn + unit) \<times> database" where
  "load_batch_into_database batch target_db target_table =
     (let db1 = create_if_absent target_table target_db in
      case batch of
        [] \<Rightarrow> (Inl IndexError, db1)
      | _ # _ \<Rightarrow>
          (let sanitized_batch = sanitize_batch batch in
           if list_all (\<lambda>r. length r = 3) sanitized_batch
           then (Inr (), db1(target_table \<mapsto> table_rows db1 target_table @ sanitized_batch))
           else (Inl MySQLdb_Error, db1)))"

section \<open>Extractor: checkpoint store, batch fetch and orchestration\<close>

text \<open>
  A checkpoint entry is the dictionary that \<open>process_table_completely\<close> writes for a
  table. The key \<open>completed\<close> is absent until the table is finished and is only read
  through \<open>.get("completed", False)\<close>, so an absent key is \<open>False\<close>. The
  percentage is kept in hundredths of a percent (the source rounds a float to two
  decimals).
\<close>

record ckpt_entry =
  offset :: nat
  total_extracted :: nat
  total_rows :: nat
  percentage :: nat
  completed :: bool

type_synonym raw_row = "pyval \<times> pyval \<times> pyval"

text \<open>
  What the next \<open>cursor.execute\<close> of the Extractor's cursor does: it succeeds, raises
  a \<open>MySQLdb.Error\<close>, or raises an exception of another class.
\<close>

datatype cursor_outcome = Succeeds | RaisesMySQLdbError | RaisesOther

text \<open>What a run does to the outside, in order.\<close>

datatype event =
    Fetch string nat nat
  | Sleep nat
  | Insert string "row list"
  | Save "(string, ckpt_entry) dict"

text \<open>
  The world of the extractor: the source tables in the order of \<open>SHOW TABLES\<close>, each
  with its rows in the order of \<open>date_heure\<close>; the indicator CSV files by base table
  name (\<open>None\<close>: no file, or one that cannot be read); the destination database; the
  checkpoint file (\<open>None\<close>: missing, empty or not JSON); the outcomes of the coming
  \<open>cursor.execute\<close> calls of the batch fetch (every call after the script succeeds);
  the selection manifests; and the trace of events.
\<close>

record world =
  source_db :: "(string \<times> raw_row list) list"
  indicator_files :: "string \<rightharpoonup> (int \<times> string) list"
  dest_db :: database
  ckpt_file :: "(string, ckpt_entry) dict option"
  cursor_script :: "cursor_outcome list"
  manifests :: "selection option"
  trace :: "event list"

definition emit :: "event \<Rightarrow> world \<Rightarrow> world" where
  "emit ev w = w\<lparr>trace := trace w @ [ev]\<rparr>"

definition load_last_extracted :: "world \<Rightarrow> (string, ckpt_entry) dict" where
  "load_last_extracted w = (case ckpt_file w of None \<Rightarrow> [] | Some d \<Rightarrow> d)"

definition save_last_extracted :: "(string, ckpt_entry) dict \<Rightarrow> world \<Rightarrow> world" where
  "save_last_extracted last_extracted w = emit (Save last_extracted) (w\<lparr>ckpt_file := Some last_extracted\<rparr>)"

text \<open>
  \<open>load_indicator_csv\<close>: the file is named after the table without its
  \<^verbatim>\<open>_s\d+_a\d{4}$\<close> suffix; a missing or unreadable file gives the empty
  dictionary. The rows of the file are the pairs of \<open>dict(zip(...))\<close>, where a later
  pair overwrites an earlier one with the same id.
\<close>

definition re_table_suffix :: rexp where
  "re_table_suffix =
     Seq (lit_ci ''_s'') (Seq (Plus digit_chars) (Seq (lit_ci ''_a'') (Seq digits4 Eol)))"

definition load_indicator_csv :: "string \<Rightarrow> world \<Rightarrow> (int \<times> string) list" where
  "load_indicator_csv table w =
     (let base_table_name = re_sub_empty re_table_suffix table in
      case indicator_files w base_table_name of None \<Rightarrow> [] | Some pairs \<Rightarrow> pairs)"

definition indicator_name :: "(int \<times> string) list \<Rightarrow> pyval \<Rightarrow> string" where
  "indicator_name indicator_map id_indicateur =
     (case id_indicateur of
        PyInt i \<Rightarrow> (case map_of (rev indicator_map) i of Some n \<Rightarrow> n | None \<Rightarrow> ''Unknown'')
      | _ \<Rightarrow> ''Unknown'')"

text \<open>The loop body that attaches the indicator name to a fetched row.\<close>

definition annotate :: "(int \<times> string) list \<Rightarrow> raw_row \<Rightarrow> row" where
  "annotate indicator_map r =
     (case r of (date_heure, id_indicateur, valeur) \<Rightarrow>
        [date_heure, PyStr (indicator_name indicator_map id_indicateur), valeur])"

definition cursor_execute :: "world \<Rightarrow> cursor_outcome \<times> world" where
  "cursor_execute w =
     (case cursor_script w of [] \<Rightarrow> (Succeeds, w) | x # xs \<Rightarrow> (x, w\<lparr>cursor_script := xs\<rparr>))"

text \<open>
  \<open>extract_table_data\<close> of tools.py. The query is
  \<open>ORDER BY date_heure LIMIT batch_size OFFSET offset\<close>. A \<open>MySQLdb.Error\<close>
  (also the one of a table that does not exist) is logged and answered with \<open>None\<close>;
  an exception of another class leaves the function. No rows, and no indicator mapping,
  are answered with \<open>None\<close> too.
\<close>

definition tools_extract_table_data ::
  "string \<Rightarrow> nat \<Rightarrow> nat \<Rightarrow> world \<Rightarrow> (exn + row list option) \<times> world" where
  "tools_extract_table_data table offs batch_size w =
     (case cursor_execute (emit (Fetch table offs batch_size) w) of
        (RaisesOther, w1) \<Rightarrow> (Inl OtherException, w1)
      | (RaisesMySQLdbError, w1) \<Rightarrow> (Inr None, w1)
      | (Succeeds, w1) \<Rightarrow>
          (case map_of (source_db w1) table of
             None \<Rightarrow> (Inr None, w1)
           | Some rows \<Rightarrow>
               (let raw_data = take batch_size (drop offs rows) in
                if raw_data = [] then (Inr None, w1)
                else
                  let indicator_map = load_indicator_csv table w1 in
                  if indicator_map = [] then (Inr None, w1)
                  else (Inr (Some (map (annotate indicator_map) raw_data)), w1))))"

text \<open>
  \<open>Extractor.extract_table_data\<close>: \<open>for attempt in range(max_retries + 1)\<close>, with
  a sleep of \<open>retry_delay * 2 ** attempt\<close> seconds after a failed attempt that is not
  the last, and the exception raised again after the last.
\<close>

definition max_retries :: nat where
  "max_retries = 3"

definition retry_delay :: nat where
  "retry_delay = 4"

function extract_attempts ::
  "nat \<Rightarrow> string \<Rightarrow> nat \<Rightarrow> nat \<Rightarrow> world \<Rightarrow> (exn + row list option) \<times> world" where
  "extract_attempts attempt table_name offs batch_size w =
     (if attempt < max_retries + 1 then
        (case tools_extract_table_data table_name offs batch_size w of
           (Inr data, w1) \<Rightarrow> (Inr data, w1)
         | (Inl e, w1) \<Rightarrow>
             if attempt < max_retries
             then extract_attempts (attempt + 1) table_name offs batch_size
                    (emit (Sleep (retry_delay * 2 ^ attempt)) w1)
             else (Inl e, w1))
      else (Inr None, w))"
  by pat_completeness auto
termination
  by (relation "measure (\<lambda>(attempt, _). max_retries + 1 - attempt)") auto

declare extract_attempts.simps [simp del]

definition Extractor_extract_table_data ::
  "string \<Rightarrow> nat \<Rightarrow> nat \<Rightarrow> world \<Rightarrow> (exn + row list option) \<times> world" where
  "Extractor_extract_table_data table_name offs batch_size w =
     extract_attempts 0 table_name offs batch_size w"

text \<open>\<open>Loader.load_batch_into_database\<close>: the call, with every exception raised again.\<close>

definition Loader_load_batch_into_database ::
  "string \<Rightarrow> row list \<Rightarrow> world \<Rightarrow> (exn + unit) \<times> world" where
  "Loader_load_batch_into_database table_name data w =
     (case load_batch_into_database data (dest_db w) table_name of
        (r, db') \<Rightarrow> (r, (emit (Insert table_name data) w)\<lparr>dest_db := db'\<rparr>))"

text \<open>\<open>get_total_rows\<close>: \<open>SELECT COUNT(*)\<close>, an error for a table that does not exist.\<close>

definition get_total_rows :: "string \<Rightarrow> world \<Rightarrow> exn + nat" where
  "get_total_rows table w =
     (case map_of (source_db w) table of None \<Rightarrow> Inl MySQLdb_Error | Some rows \<Rightarrow> Inr (length rows))"

definition percentage_of :: "nat \<Rightarrow> nat \<Rightarrow> nat" where
  "percentage_of extracted n_rows =
     (if n_rows > 0 then (extracted * 10000 + n_rows div 2) div n_rows else 0)"

text \<open>
  One turn of the \<open>while True\<close> loop of \<open>process_table_completely\<close>: the loop is
  left by an exception, by \<open>break\<close> (with the dictionary as it is then), or goes on with
  the new offset, count and dictionary.
\<close>

datatype turn =
    Raised exn world
  | Break "(string, ckpt_entry) dict" world
  | Continue nat nat "(string, ckpt_entry) dict" world

definition loop_turn ::
  "nat \<Rightarrow> string \<Rightarrow> nat \<Rightarrow> nat \<Rightarrow> nat \<Rightarrow> (string, ckpt_entry) dict \<Rightarrow> world \<Rightarrow> turn" where
  "loop_turn batch_size table rows_total offs extracted last_extracted_info w =
     (case Extractor_extract_table_data table offs batch_size w of
        (Inl e, w1) \<Rightarrow> Raised e w1
      | (Inr None, w1) \<Rightarrow> Break last_extracted_info w1
      | (Inr (Some data), w1) \<Rightarrow>
          if data = [] then Break last_extracted_info w1
          else
            (case Loader_load_batch_into_database table data w1 of
               (Inl e, w2) \<Rightarrow> Raised e w2
             | (Inr _, w2) \<Rightarrow>
                 (let offs' = offs + length data;
                      extracted' = extracted + length data;
                      info' = AList.update table
                        \<lparr>offset = offs', total_extracted = extracted', total_rows = rows_total,
                         percentage = percentage_of extracted' rows_total, completed = False\<rparr>
                        last_extracted_info;
                      w3 = save_last_extracted info' w2
                  in if extracted' \<ge> rows_total then Break info' w3
                     else Continue offs' extracted' info' w3)))"

lemma loop_turn_progress:
  "loop_turn batch_size table rows_total offs extracted info w = Continue offs' extracted' info' w'
   \<Longrightarrow> extracted < extracted' \<and> extracted' < rows_total"
  by (auto simp: loop_turn_def Let_def split: prod.splits sum.splits option.splits if_splits)

function copy_loop ::
  "nat \<Rightarrow> string \<Rightarrow> nat \<Rightarrow> nat \<Rightarrow> nat \<Rightarrow> (string, ckpt_entry) dict \<Rightarrow> world
     \<Rightarrow> (exn + (string, ckpt_entry) dict) \<times> world" where
  "copy_loop batch_size table rows_total offs extracted last_extracted_info w =
     (case loop_turn batch_size table rows_total offs extracted last_extracted_info w of
        Raised e w' \<Rightarrow> (Inl e, w')
      | Break info' w' \<Rightarrow> (Inr info', w')
      | Continue offs' extracted' info' w' \<Rightarrow>
          copy_loop batch_size table rows_total offs' extracted' info' w')"
  by pat_completeness auto
termination
  by (relation "measure (\<lambda>(_, _, rows_total, _, extracted, _). rows_total - extracted)")
     (auto dest: loop_turn_progress)

declare copy_loop.simps [simp del]

text \<open>
  \<open>process_table_completely\<close>. The offset starts at the stored one, or at 0; the row
  count is taken once. After the loop the entry of the table is marked completed, which
  is a KeyError when the dictionary has no entry for it.
\<close>

definition process_table_completely :: "nat \<Rightarrow> string \<Rightarrow> world \<Rightarrow> (exn + unit) \<times> world" where
  "process_table_completely batch_size table w =
     (let last_extracted_info = load_last_extracted w;
          offs = (case map_of last_extracted_info table of Some e \<Rightarrow> offset e | None \<Rightarrow> 0)
      in case get_total_rows table w of
           Inl e \<Rightarrow> (Inl e, w)
         | Inr rows_total \<Rightarrow>
             (case copy_loop batch_size table rows_total offs offs last_extracted_info w of
                (Inl e, w1) \<Rightarrow> (Inl e, w1)
              | (Inr info, w1) \<Rightarrow>
                  (case map_of info table of
                     None \<Rightarrow> (Inl KeyError, w1)
                   | Some e \<Rightarrow>
                       (Inr (), save_last_extracted
                                  (AList.update table (e\<lparr>completed := True\<rparr>) info) w1))))"

text \<open>
  \<open>Extractor.process_tables_names\<close> and \<open>process_orchestration\<close>: the tables are
  selected, the checkpoint is read once, and every table that it does not mark completed
  is copied; an exception ends the run.
\<close>

definition Extractor_process_tables_names :: "world \<Rightarrow> (exn + string list) \<times> world" where
  "Extractor_process_tables_names w =
     (case process_tables_names (map fst (source_db w)) patterns START_DATE of
        Inl e \<Rightarrow> (Inl e, w)
      | Inr sel \<Rightarrow> (Inr (unified_sorted_tables sel), w\<lparr>manifests := Some sel\<rparr>))"

definition already_completed :: "(string, ckpt_entry) dict \<Rightarrow> string \<Rightarrow> bool" where
  "already_completed last_extracted_info table =
     (case map_of last_extracted_info table of Some e \<Rightarrow> completed e | None \<Rightarrow> False)"

fun orchestrate_tables ::
  "nat \<Rightarrow> (string, ckpt_entry) dict \<Rightarrow> string list \<Rightarrow> world \<Rightarrow> (exn + unit) \<times> world" where
  "orchestrate_tables batch_size last_extracted_info [] w = (Inr (), w)"
| "orchestrate_tables batch_size last_extracted_info (table # tables) w =
     (if already_completed last_extracted_info table
      then orchestrate_tables batch_size last_extracted_info tables w
      else
        (case process_table_completely batch_size table w of
           (Inl e, w1) \<Rightarrow> (Inl e, w1)
         | (Inr _, w1) \<Rightarrow> orchestrate_tables batch_size last_extracted_info tables w1))"

definition process_orchestration :: "nat \<Rightarrow> world \<Rightarrow> (exn + unit) \<times> world" where
  "process_orchestration batch_size w =
     (case Extractor_process_tables_names w of
        (Inl e, w1) \<Rightarrow> (Inl e, w1)
      | (Inr tables, w1) \<Rightarrow>
          orchestrate_tables batch_size (load_last_extracted w1) tables w1)"

text \<open>
  Reading a trace: the entries of a table in the checkpoints that were persisted, in
  order; whether an event is a fetch from, or an insert into, a table; and whether a
  list of offsets rises from a start in steps of at least one and at most the batch
  size.
\<close>

definition stored_offset :: "(string, ckpt_entry) dict \<Rightarrow> string \<Rightarrow> nat" where
  "stored_offset info table = (case map_of info table of Some e \<Rightarrow> offset e | None \<Rightarrow> 0)"

fun saved_entries :: "string \<Rightarrow> event list \<Rightarrow> ckpt_entry list" where
  "saved_entries t [] = []"
| "saved_entries t (Save d # evs) =
     (case map_of d t of Some e \<Rightarrow> e # saved_entries t evs | None \<Rightarrow> saved_entries t evs)"
| "saved_entries t (_ # evs) = saved_entries t evs"

fun touches :: "string \<Rightarrow> event \<Rightarrow> bool" where
  "touches t (Fetch t' _ _) = (t' = t)"
| "touches t (Insert t' _) = (t' = t)"
| "touches t _ = False"

fun strict_steps :: "nat \<Rightarrow> nat \<Rightarrow> nat list \<Rightarrow> bool" where
  "strict_steps b prev [] = True"
| "strict_steps b prev (x # xs) = (prev < x \<and> x \<le> prev + b \<and> strict_steps b x xs)"

text \<open>The batch size of the Orchestrator.\<close>

definition Orchestrator_batch_size :: nat where
  "Orchestrator_batch_size = 500000"

section \<open>Transformer: KPI formulas (config.py)\<close>

text \<open>
  Counter values and KPI values are Python numbers, kept exact; a KPI value can be
  \<open>None\<close>. A formula is a lambda of one argument (the numerator values) or of two
  (numerator and denominator values); calling it can raise.
\<close>

datatype formula =
    Formula1 "real list \<Rightarrow> exn + real option"
  | Formula2 "real list \<Rightarrow> real list \<Rightarrow> exn + real option"

text \<open>
  A KPI definition. \<open>numerator\<close> is read with \<open>config.get('numerator', [])\<close>;
  \<open>denominator\<close> is \<open>None\<close> when the key is absent.
\<close>

record kpi_config =
  numerator :: "string list"
  denominator :: "string list option"
  formula :: formula

text \<open>Python's \<open>/\<close>, \<open>xs[i]\<close> and the value of an expression that did not raise.\<close>

definition py_truediv :: "real \<Rightarrow> real \<Rightarrow> exn + real" where
  "py_truediv a b = (if b = 0 then Inl ZeroDivisionError else Inr (a / b))"

definition py_item :: "real list \<Rightarrow> nat \<Rightarrow> exn + real" where
  "py_item xs i = (if i < length xs then Inr (xs ! i) else Inl IndexError)"

definition and_then :: "exn + 'a \<Rightarrow> ('a \<Rightarrow> exn + 'b) \<Rightarrow> exn + 'b" where
  "and_then r f = (case r of Inl e \<Rightarrow> Inl e | Inr x \<Rightarrow> f x)"

definition returns :: "real \<Rightarrow> exn + real option" where
  "returns x = Inr (Some x)"

text \<open>The lambdas of the formula tables.\<close>

definition f_sum :: formula where
  "f_sum = Formula1 (\<lambda>num. returns (sum_list num))"

definition f_complement_percent :: formula where
  "f_complement_percent = Formula2 (\<lambda>num denom.
     if sum_list denom \<noteq> 0
     then and_then (py_truediv (sum_list num) (sum_list denom)) (\<lambda>q. returns ((1 - q) * 100))
     else Inr None)"

definition f_ratio_percent :: formula where
  "f_ratio_percent = Formula2 (\<lambda>num denom.
     if sum_list denom \<noteq> 0
     then and_then (py_truediv (sum_list num) (sum_list denom)) (\<lambda>q. returns (q * 100))
     else Inr None)"

definition f_ratio :: formula where
  "f_ratio = Formula2 (\<lambda>num denom.
     if sum_list denom \<noteq> 0
     then and_then (py_truediv (sum_list num) (sum_list denom)) returns
     else Inr None)"

definition f_none :: formula where
  "f_none = Formula1 (\<lambda>num. Inr None)"

text \<open>
  \<^verbatim>\<open>(denom[0] * 2147483648 + denom[1]) + denom[2]\<close>, the received packets rebuilt from
  their high and low halves, plus the lost packets.
\<close>

definition pkt_total :: "real list \<Rightarrow> exn + real" where
  "pkt_total denom =
     and_then (py_item denom 0) (\<lambda>hi.
     and_then (py_item denom 1) (\<lambda>lo.
     and_then (py_item denom 2) (\<lambda>lost.
     Inr ((hi * 2147483648 + lo) + lost))))"

definition f_pkt_loss :: formula where
  "f_pkt_loss = Formula2 (\<lambda>num denom.
     and_then (pkt_total denom) (\<lambda>total_pkts.
       if total_pkts \<noteq> 0
       then and_then (pkt_total denom) (\<lambda>total_pkts'.
              and_then (py_truediv (sum_list num) total_pkts') (\<lambda>q. returns (q * 100)))
       else Inr None))"

definition f_received_pkts :: formula where
  "f_received_pkts = Formula1 (\<lambda>num.
     and_then (py_item num 0) (\<lambda>hi.
     and_then (py_item num 1) (\<lambda>lo.
     returns (hi * 2147483648 + lo))))"

definition f_total_bw :: formula where
  "f_total_bw = Formula1 (\<lambda>num.
     and_then (py_truediv (sum_list num) (1000000 * 900)) (\<lambda>q. returns (q * 8 * 100 * (12 / 10))))"

definition f_difference :: formula where
  "f_difference = Formula1 (\<lambda>num.
     and_then (py_item num 0) (\<lambda>a. and_then (py_item num 1) (\<lambda>b. returns (a - b))))"

type_synonym kpi_configs = "(string, kpi_config) dict"

text \<open>\<open>tables_5min\<close> and \<open>tables_mgw\<close>: each table group with its \<open>'kpis'\<close>.\<close>

definition sum_of :: "string \<Rightarrow> kpi_config" where
  "sum_of counter = \<lparr>numerator = [counter], denominator = None, formula = f_sum\<rparr>"

definition tables_5min :: "(string, kpi_configs) dict" where
  "tables_5min =
     [(''traffic_entree'',
        [(''traffic'', sum_of ''VoiproITRALAC''),
         (''tentative_appel'', sum_of ''VoiproNCALLSI''),
         (''appel_repondu'', sum_of ''VoiproIANSWER''),
         (''appel_non_repondu'', sum_of ''VoiproIOVERFL'')]),
      (''traffic_sortie'',
        [(''traffic'', sum_of ''VoiproOTRALAC''),
         (''tentative_appel'', sum_of ''VoiproNCALLSO''),
         (''appel_repondu'', sum_of ''VoiproOANSWER''),
         (''appel_non_repondu'', sum_of ''VoiproOOVERFL'')])]"

definition jitter :: "nat list \<Rightarrow> string list" where
  "jitter ns = map (\<lambda>n. ''pmVoIpConnMeasuredJitter'' @ [digit_chars ! n]) ns"

definition late_ratio :: "nat list \<Rightarrow> string list" where
  "late_ratio ns = map (\<lambda>n. ''pmVoIpConnLatePktsRatio'' @ [digit_chars ! n]) ns"

definition mgw_kpis :: kpi_configs where
  "mgw_kpis =
     [(''RateOfLowJitterStream'',
        \<lparr>numerator = jitter [4, 5, 6, 7, 8],
         denominator = Some (jitter [0, 1, 2, 3, 4, 5, 6, 7, 8]),
         formula = f_complement_percent\<rparr>),
      (''UseOfLicence'',
        \<lparr>numerator = [''pmNrOfMeStChUsedVoip''],
         denominator = Some [''maxNrOfLicMediaStreamChannelsVoip''],
         formula = f_ratio_percent\<rparr>),
      (''LatePktsRatio'',
        \<lparr>numerator = late_ratio [4, 5, 6],
         denominator = Some (late_ratio [0, 1, 2, 3, 4, 5, 6]),
         formula = f_complement_percent\<rparr>),
      (''LatePktsVoIp'',
        \<lparr>numerator = [''pmLatePktsVoIp''],
         denominator = Some [''pmLatePktsVoIp'', ''pmSuccTransmittedPktsVoIp''],
         formula = f_ratio\<rparr>),
      (''MediaStreamChannelUtilisationRate'',
        \<lparr>numerator = [''pmNrOfMediaStreamChannelsBusy''],
         denominator = Some [''maxNrOfLicMediaStreamChannels''],
         formula = f_ratio_percent\<rparr>),
      (''IPQoS'', \<lparr>numerator = [], denominator = None, formula = f_none\<rparr>),
      (''PktLoss'',
        \<lparr>numerator = [''pmRtpDiscardedPkts'', ''pmRtpLostPkts''],
         denominator = Some [''pmRtpReceivedPktsHi'', ''pmRtpReceivedPktsLo'', ''pmRtpLostPkts''],
         formula = f_pkt_loss\<rparr>),
      (''pmRtpReceivedPkts'',
        \<lparr>numerator = [''pmRtpReceivedPktsHi'', ''pmRtpReceivedPktsLo''],
         denominator = None,
         formula = f_received_pkts\<rparr>),
      (''TotalBwForSig'',
        \<lparr>numerator = [''pmSctpStatSentChunks'', ''pmSctpStatRetransChunks''],
         denominator = Some [],
         formula = f_total_bw\<rparr>),
      (''NbIPTermination'',
        \<lparr>numerator = [''pmNrOfIpTermsReq'', ''pmNrOfIpTermsRej''],
         denominator = None,
         formula = f_difference\<rparr>),
      (''traffic_load'', sum_of ''traffic_load'')]"

definition tables_mgw :: "(string, kpi_configs) dict" where
  "tables_mgw = [(''mgw_kpis'', mgw_kpis)]"

definition SUFFIX_OPERATOR_MAPPING :: "(string, string) dict" where
  "SUFFIX_OPERATOR_MAPPING =
     [(''nw'', ''Inwi''), (''mt'', ''Maroc Telecom''), (''ie'', ''International''),
      (''is'', ''International''), (''bs'', ''BSC 2G''), (''be'', ''BSC 2G''),
      (''ne'', ''RNC 3G''), (''ns'', ''RNC 3G'')]"

section \<open>Transformer: KPI evaluation, suffix aggregation and detail rows (transformer.py)\<close>

text \<open>\<open>counters.get(counter, 0)\<close> for every name of a list.\<close>

definition counter_values :: "(string, real) dict \<Rightarrow> string list \<Rightarrow> real list" where
  "counter_values counters names =
     map (\<lambda>counter. case map_of counters counter of Some v \<Rightarrow> v | None \<Rightarrow> 0) names"

text \<open>
  The body of the \<open>try\<close> in \<open>calculate_kpis\<close>: the formula is called with two
  arguments when the definition has a denominator and with one otherwise; a lambda of the
  other arity is a TypeError.
\<close>

definition call_formula :: "(string, real) dict \<Rightarrow> kpi_config \<Rightarrow> exn + real option" where
  "call_formula counters config =
     (let num = counter_values counters (numerator config) in
      case denominator config of
        Some names \<Rightarrow>
          (case formula config of
             Formula2 f \<Rightarrow> f num (counter_values counters names)
           | Formula1 _ \<Rightarrow> Inl TypeError)
      | None \<Rightarrow>
          (case formula config of
             Formula1 f \<Rightarrow> f num
           | Formula2 _ \<Rightarrow> Inl TypeError))"

text \<open>Both \<open>except\<close> clauses store \<open>None\<close> for the KPI.\<close>

definition calculate_kpi :: "(string, real) dict \<Rightarrow> kpi_config \<Rightarrow> real option" where
  "calculate_kpi counters config =
     (case call_formula counters config of
        Inr v \<Rightarrow> v
      | Inl ZeroDivisionError \<Rightarrow> None
      | Inl _ \<Rightarrow> None)"

definition calculate_kpis :: "(string, real) dict \<Rightarrow> kpi_configs \<Rightarrow> (string, real option) dict" where
  "calculate_kpis counters kpi_configs =
     map (\<lambda>(kpi, config). (kpi, calculate_kpi counters config)) kpi_configs"

text \<open>
  \<open>extract_indicateur_suffixe\<close>: \<open>indicateur.split('.', 1)\<close>; without a dot there is
  no suffix.
\<close>

definition extract_indicateur_suffixe :: "string \<Rightarrow> string \<times> string option" where
  "extract_indicateur_suffixe indicateur =
     (case dropWhile (\<lambda>c. c \<noteq> CHR ''.'') indicateur of
        [] \<Rightarrow> (indicateur, None)
      | _ # suffix \<Rightarrow> (takeWhile (\<lambda>c. c \<noteq> CHR ''.'') indicateur, Some suffix))"

text \<open>\<open>k in s\<close> for strings.\<close>

fun py_in :: "string \<Rightarrow> string \<Rightarrow> bool" where
  "py_in k [] = (k = [])"
| "py_in k (c # s) = (take (length k) (c # s) = k \<or> py_in k s)"

text \<open>
  The lambda that resolves the operator of a suffix:
  \<^verbatim>\<open>next((v for k, v in mapping.items() if k and k.lower() in s), 'Other')\<close>, applied to
  the suffix in lower case.
\<close>

definition resolve_operator :: "(string, string) dict \<Rightarrow> string \<Rightarrow> string" where
  "resolve_operator mapping suffix =
     (case find (\<lambda>(k, v). k \<noteq> [] \<and> py_in (str_lower k) (str_lower suffix)) mapping of
        Some (k, v) \<Rightarrow> v
      | None \<Rightarrow> ''Other'')"

text \<open>
  \<open>aggregate_by_suffix\<close> on the rows (Date, indicateur, valeur) of one date. Unpacking
  \<open>zip(*...)\<close> of no rows is a ValueError. Rows without a suffix, or with suffix
  \<open>M\<close>, are left out. The values are summed per suffix and prefix (a NULL value adds
  nothing) and laid out with 0 for a prefix that a suffix does not have; the groups
  come in sorted order. The second result is the set of unmapped suffixes that is
  logged.
\<close>

type_synonym df_row = "string \<times> string \<times> real option"

record suffix_data =
  operator :: string
  counters :: "(string, real) dict"

definition split_rows :: "df_row list \<Rightarrow> (string \<times> string \<times> real option) list" where
  "split_rows df =
     concat (map (\<lambda>(date, indicateur, valeur).
       case extract_indicateur_suffixe indicateur of
         (prefix, Some suffix) \<Rightarrow> if suffix \<noteq> ''M'' then [(prefix, suffix, valeur)] else []
       | (prefix, None) \<Rightarrow> []) df)"

definition group_sum :: "(string \<times> string \<times> real option) list \<Rightarrow> string \<Rightarrow> string \<Rightarrow> real" where
  "group_sum rows suffix prefix =
     sum_list (map (\<lambda>(p, s, v). case v of Some x \<Rightarrow> x | None \<Rightarrow> 0)
       (filter (\<lambda>(p, s, v). s = suffix \<and> p = prefix) rows))"

definition first_operator ::
  "(string, string) dict \<Rightarrow> (string \<times> string \<times> real option) list \<Rightarrow> string \<Rightarrow> string" where
  "first_operator mapping rows suffix =
     (case filter (\<lambda>(p, s, v). s = suffix) rows of
        (p, s, v) # _ \<Rightarrow> resolve_operator mapping s
      | [] \<Rightarrow> ''Other'')"

definition aggregate_by_suffix ::
  "(string, string) dict \<Rightarrow> df_row list \<Rightarrow> exn + ((string, suffix_data) dict \<times> string list)" where
  "aggregate_by_suffix mapping df =
     (if df = [] then Inl ValueError
      else
        let rows = split_rows df;
            suffixes = sort (remdups (map (\<lambda>(p, s, v). s) rows));
            prefixes = sort (remdups (map (\<lambda>(p, s, v). p) rows));
            grouped = map (\<lambda>suffix.
              (suffix, \<lparr>operator = first_operator mapping rows suffix,
                        counters = map (\<lambda>prefix. (prefix, group_sum rows suffix prefix)) prefixes\<rparr>))
              suffixes;
            unmapped = sort (remdups (map (\<lambda>(p, s, v). s)
              (filter (\<lambda>(p, s, v). resolve_operator mapping s = ''Other'') rows)))
        in Inr (grouped, unmapped))"

text \<open>
  A buffered detail row, and the statement that \<open>insert_kpi_details\<close> executes: the
  table, the column names, and one tuple of parameters for each row that is inserted.
\<close>

record detail_row =
  kpi_id :: nat
  row_operator :: string
  row_suffix :: string
  kpi_values :: "(string, real option) dict"

record insert_statement =
  into_table :: string
  columns :: "string list"
  params :: "(nat \<times> string \<times> string \<times> real option list) list"

text \<open>\<open>valid_kpis\<close>: the KPI values that are not \<open>None\<close>.\<close>

definition valid_kpis :: "detail_row \<Rightarrow> (string, real option) dict" where
  "valid_kpis row = filter (\<lambda>(kpi, v). v \<noteq> None) (kpi_values row)"

definition row_values :: "kpi_configs \<Rightarrow> detail_row \<Rightarrow> nat \<times> string \<times> string \<times> real option list" where
  "row_values kpi_configs row =
     (kpi_id row, row_operator row, row_suffix row,
      map (\<lambda>kpi. case map_of (valid_kpis row) kpi of Some v \<Rightarrow> v | None \<Rightarrow> None)
        (map fst kpi_configs))"

text \<open>
  \<open>insert_kpi_details\<close>: a missing table group is a KeyError (rolled back and raised
  again). A row without a valid KPI is logged and skipped. The statement is executed
  only when there is a row to insert. The result is the statement, if one was executed,
  and the rows that were logged.
\<close>

definition insert_kpi_details ::
  "(string, kpi_configs) dict \<Rightarrow> string \<Rightarrow> detail_row list
     \<Rightarrow> exn + (insert_statement option \<times> detail_row list)" where
  "insert_kpi_details tables table_name batch =
     (case map_of tables table_name of
        None \<Rightarrow> Inl KeyError
      | Some kpi_configs \<Rightarrow>
          (let cols = [''kpi_id'', ''operator'', ''suffix''] @ map fst kpi_configs;
               vals = map (row_values kpi_configs) (filter (\<lambda>row. valid_kpis row \<noteq> []) batch);
               skipped = filter (\<lambda>row. valid_kpis row = []) batch
           in Inr (if vals \<noteq> []
                   then Some \<lparr>into_table = table_name, columns = cols, params = vals\<rparr>
                   else None,
                   skipped)))"

text \<open>
  The buffering of \<open>process\<close> for the suffixes of one date and one table group: a
  suffix whose KPI values are not all \<open>None\<close> is appended to the buffer, the others are
  logged.
\<close>

definition buffer_suffixes ::
  "nat \<Rightarrow> kpi_configs \<Rightarrow> (string, suffix_data) dict \<Rightarrow> detail_row list \<times> detail_row list" where
  "buffer_suffixes summary_id kpi_configs suffix_rows =
     (let candidates = map (\<lambda>(suffix, d).
            \<lparr>kpi_id = summary_id, row_operator = operator d, row_suffix = suffix,
             kpi_values = calculate_kpis (counters d) kpi_configs\<rparr>) suffix_rows
      in (filter (\<lambda>row. list_ex (\<lambda>(kpi, v). v \<noteq> None) (kpi_values row)) candidates,
          filter (\<lambda>row. \<not> list_ex (\<lambda>(kpi, v). v \<noteq> None) (kpi_values row)) candidates))"

section \<open>Theorems\<close>

lemma sanitize_val_nan: "sanitize_val (PyFloat NaN) = PyNone"
  by (simp add: sanitize_val_def)

lemma sanitize_val_other: "v \<noteq> PyFloat NaN \<Longrightarrow> sanitize_val v = v"
  by (cases v rule: is_float_nan.cases) (simp_all add: sanitize_val_def)

lemma length_sanitize_row: "length (sanitize_row r) = length r"
  by (simp add: sanitize_row_def)

lemma table_rows_create: "table_rows (create_if_absent t db) t' = table_rows db t'"
  by (simp add: table_rows_def create_if_absent_def split: option.splits)

text \<open>
  C9. Every batch that \<open>load_batch_into_database\<close> inserts (a non-empty batch of
  three-cell tuples) reaches the destination table cell by cell: a cell that is a float
  NaN is stored as None, every other cell is stored as it is, and the rows already in the
  table stay in front of the new ones.
\<close>

theorem load_batch_nan_to_none:
  assumes "batch \<noteq> []" and "\<forall>r \<in> set batch. length r = 3"
  shows "\<exists>db'. load_batch_into_database batch db t = (Inr (), db')
           \<and> table_rows db' t = table_rows db t @ map (map sanitize_val) batch
           \<and> sanitize_val (PyFloat NaN) = PyNone
           \<and> (\<forall>v. v \<noteq> PyFloat NaN \<longrightarrow> sanitize_val v = v)"
proof -
  from assms(1) obtain r rs where b: "batch = r # rs" by (cases batch) auto
  have all3: "list_all (\<lambda>r. length r = 3) (sanitize_batch batch)"
    using assms(2) by (simp add: sanitize_batch_def list_all_iff length_sanitize_row)
  have "load_batch_into_database batch db t =
          (Inr (), (create_if_absent t db)(t \<mapsto> table_rows (create_if_absent t db) t @ sanitize_batch batch))"
    using all3 unfolding load_batch_into_database_def Let_def b by simp
  moreover have "table_rows ((create_if_absent t db)(t \<mapsto> table_rows (create_if_absent t db) t @ sanitize_batch batch)) t
      = table_rows db t @ map (map sanitize_val) batch"
    by (simp add: table_rows_def[of "_(_ \<mapsto> _)"] table_rows_create sanitize_batch_def sanitize_row_def cong: map_cong)
  ultimately show ?thesis
    using sanitize_val_nan sanitize_val_other by auto
qed

theorem load_batch_nan_to_none_witness:
  "table_rows (snd (load_batch_into_database
      [[PyDatetime 1, PyStr ''a'', PyFloat NaN], [PyDatetime 2, PyStr ''b'', PyFloat (Num 3)]]
      Map.empty ''t'')) ''t''
   = [[PyDatetime 1, PyStr ''a'', PyNone], [PyDatetime 2, PyStr ''b'', PyFloat (Num 3)]]"
  using load_batch_nan_to_none[of
      "[[PyDatetime 1, PyStr ''a'', PyFloat NaN], [PyDatetime 2, PyStr ''b'', PyFloat (Num 3)]]"
      Map.empty "''t''"]
  by (auto simp: table_rows_def sanitize_val_def)

subsection \<open>The fetch with retries and the first empty fetch\<close>

lemma load_indicator_csv_frame [simp]:
  "load_indicator_csv t (w\<lparr>trace := tr\<rparr>) = load_indicator_csv t w"
  "load_indicator_csv t (w\<lparr>cursor_script := cs\<rparr>) = load_indicator_csv t w"
  "load_indicator_csv t (w\<lparr>dest_db := db\<rparr>) = load_indicator_csv t w"
  "load_indicator_csv t (w\<lparr>ckpt_file := ck\<rparr>) = load_indicator_csv t w"
  "load_indicator_csv t (w\<lparr>manifests := m\<rparr>) = load_indicator_csv t w"
  by (simp_all add: load_indicator_csv_def)

lemma first_attempt_none:
  assumes "tools_extract_table_data t offs b w = (Inr None, w1)"
  shows "Extractor_extract_table_data t offs b w = (Inr None, w1)"
  using assms
  by (simp add: Extractor_extract_table_data_def extract_attempts.simps[of 0] max_retries_def)

lemma tools_sql_error:
  assumes "cursor_script w = RaisesMySQLdbError # rest"
  shows "tools_extract_table_data t offs b w
           = (Inr None, w\<lparr>cursor_script := rest, trace := trace w @ [Fetch t offs b]\<rparr>)"
  using assms by (simp add: tools_extract_table_data_def cursor_execute_def emit_def)

lemma tools_no_rows:
  assumes "cursor_script w = [] \<or> cursor_script w = Succeeds # rest"
    and "map_of (source_db w) t = Some rows"
    and "take b (drop offs rows) = [] \<or> load_indicator_csv t w = []"
  shows "tools_extract_table_data t offs b w
           = (Inr None, w\<lparr>cursor_script := tl (cursor_script w), trace := trace w @ [Fetch t offs b]\<rparr>)"
  using assms by (auto simp: tools_extract_table_data_def cursor_execute_def emit_def Let_def)

lemma break_without_entry:
  assumes "map_of (load_last_extracted w) T = None"
    and "map_of (source_db w) T = Some rows"
    and "Extractor_extract_table_data T 0 B w = (Inr None, w1)"
  shows "process_table_completely B T w = (Inl KeyError, w1)"
  using assms
  by (simp add: process_table_completely_def Let_def get_total_rows_def
      copy_loop.simps[of B T _ 0 0] loop_turn_def)

text \<open>
  An exception that is not a \<open>MySQLdb.Error\<close> is retried: four attempts, with sleeps of
  4, 8 and 16 seconds between them, and the exception of the fourth attempt is raised.
\<close>

lemma other_exception_retried:
  assumes "cursor_script w = RaisesOther # RaisesOther # RaisesOther # RaisesOther # rest"
  shows "Extractor_extract_table_data t offs b w
           = (Inl OtherException,
              w\<lparr>cursor_script := rest,
                trace := trace w @ [Fetch t offs b, Sleep 4, Fetch t offs b, Sleep 8,
                                    Fetch t offs b, Sleep 16, Fetch t offs b]\<rparr>)"
  using assms
  by (simp add: Extractor_extract_table_data_def extract_attempts.simps[of 0]
      extract_attempts.simps[of "Suc 0"] extract_attempts.simps[of "Suc (Suc 0)"]
      extract_attempts.simps[of "Suc (Suc (Suc 0))"]
      max_retries_def retry_delay_def tools_extract_table_data_def cursor_execute_def emit_def)

text \<open>
  C1. A \<open>MySQLdb.Error\<close> of a batch fetch never reaches the retry loop:
  \<open>extract_table_data\<close> of tools.py answers it with \<open>None\<close>, which the copy loop
  reads as the end of the table. Here the table has three rows, the checkpoint stands at
  offset 2, and the fetch at offset 2 raises the error once: the run makes one fetch, no
  retry and no sleep, ends without an exception, and persists the table as completed
  although its third row was never copied.
\<close>

definition sql_error_world :: world where
  "sql_error_world =
     \<lparr>source_db = [(''CALIS_APG43_5_S12_A2024'',
          [(PyDatetime 1, PyInt 7, PyFloat (Num 1)), (PyDatetime 2, PyInt 7, PyFloat (Num 2)),
           (PyDatetime 3, PyInt 7, PyFloat (Num 3))])],
      indicator_files = [''CALIS_APG43_5'' \<mapsto> [(7, ''VoiproITRALAC.nw'')]],
      dest_db = Map.empty,
      ckpt_file = Some [(''CALIS_APG43_5_S12_A2024'',
          \<lparr>offset = 2, total_extracted = 2, total_rows = 3, percentage = 6667,
           completed = False\<rparr>)],
      cursor_script = [RaisesMySQLdbError],
      manifests = None,
      trace = []\<rparr>"

theorem sql_error_marks_table_completed:
  "(case process_table_completely 2 ''CALIS_APG43_5_S12_A2024'' sql_error_world of
      (r, w') \<Rightarrow> (r, trace w', ckpt_file w', dest_db w' ''CALIS_APG43_5_S12_A2024''))
   = (Inr (),
      [Fetch ''CALIS_APG43_5_S12_A2024'' 2 2,
       Save [(''CALIS_APG43_5_S12_A2024'',
          \<lparr>offset = 2, total_extracted = 2, total_rows = 3, percentage = 6667,
           completed = True\<rparr>)]],
      Some [(''CALIS_APG43_5_S12_A2024'',
          \<lparr>offset = 2, total_extracted = 2, total_rows = 3, percentage = 6667,
           completed = True\<rparr>)],
      None)"
  by code_simp

text \<open>
  C10. A table without a checkpoint entry whose first batch fetch gives no rows (the
  fetch raised a \<open>MySQLdb.Error\<close>, the source table is empty, or there is no indicator
  mapping) makes \<open>process_table_completely\<close> raise a KeyError where it marks the
  table completed: the entry is only written after a batch. Nothing is persisted or
  inserted, and the orchestration stops at this table with the same exception.
\<close>

theorem first_fetch_empty_raises_KeyError:
  assumes "map_of (load_last_extracted w) T = None"
    and "map_of (source_db w) T = Some rows"
    and "cursor_script w = RaisesMySQLdbError # rest
         \<or> (cursor_script w = [] \<or> cursor_script w = Succeeds # rest)
            \<and> (rows = [] \<or> load_indicator_csv T w = [])"
  shows "\<exists>w'. process_table_completely B T w = (Inl KeyError, w')
           \<and> ckpt_file w' = ckpt_file w
           \<and> dest_db w' = dest_db w
           \<and> trace w' = trace w @ [Fetch T 0 B]
           \<and> orchestrate_tables B (load_last_extracted w) (T # ts) w = (Inl KeyError, w')"
proof -
  define w1 where "w1 = w\<lparr>cursor_script := tl (cursor_script w), trace := trace w @ [Fetch T 0 B]\<rparr>"
  have "tools_extract_table_data T 0 B w = (Inr None, w1)"
    using assms(3)
  proof
    assume "cursor_script w = RaisesMySQLdbError # rest"
    then show ?thesis using tools_sql_error[of w rest T 0 B] by (simp add: w1_def)
  next
    assume a: "(cursor_script w = [] \<or> cursor_script w = Succeeds # rest)
            \<and> (rows = [] \<or> load_indicator_csv T w = [])"
    then have "take B (drop 0 rows) = [] \<or> load_indicator_csv T w = []" by auto
    with a assms(2) show ?thesis using tools_no_rows[of w rest T rows B 0] by (simp add: w1_def)
  qed
  then have "Extractor_extract_table_data T 0 B w = (Inr None, w1)"
    by (rule first_attempt_none)
  with assms(1,2) have p: "process_table_completely B T w = (Inl KeyError, w1)"
    by (rule break_without_entry)
  have "\<not> already_completed (load_last_extracted w) T"
    using assms(1) by (simp add: already_completed_def)
  with p have "orchestrate_tables B (load_last_extracted w) (T # ts) w = (Inl KeyError, w1)"
    by simp
  with p show ?thesis by (auto simp: w1_def)
qed

definition empty_table_world :: world where
  "empty_table_world =
     \<lparr>source_db = [(''CALIS_APG43_5_S12_A2024'', [])],
      indicator_files = [''CALIS_APG43_5'' \<mapsto> [(7, ''VoiproITRALAC.nw'')]],
      dest_db = Map.empty,
      ckpt_file = None,
      cursor_script = [],
      manifests = None,
      trace = []\<rparr>"

theorem first_fetch_empty_raises_KeyError_witness:
  "fst (process_table_completely 500000 ''CALIS_APG43_5_S12_A2024'' empty_table_world) = Inl KeyError
   \<and> ckpt_file (snd (process_table_completely 500000 ''CALIS_APG43_5_S12_A2024'' empty_table_world)) = None"
  using first_fetch_empty_raises_KeyError[of empty_table_world "''CALIS_APG43_5_S12_A2024''" "[]" "[]" 500000 "[]"]
  by (auto simp: empty_table_world_def load_last_extracted_def)

subsection \<open>A full successful run of the copy loop\<close>

lemma load_batch_ok:
  assumes "batch \<noteq> []" and "\<forall>r \<in> set batch. length r = 3"
  shows "load_batch_into_database batch db t
           = (Inr (), (create_if_absent t db)(t \<mapsto> table_rows db t @ sanitize_batch batch))"
proof -
  from assms(1) obtain r rs where b: "batch = r # rs" by (cases batch) auto
  have "list_all (\<lambda>r. length r = 3) (sanitize_batch batch)"
    using assms(2) by (simp add: sanitize_batch_def list_all_iff length_sanitize_row)
  then show ?thesis
    unfolding load_batch_into_database_def Let_def b by (simp add: table_rows_create)
qed

lemma length_annotate: "length (annotate m r) = 3"
  by (cases r) (simp add: annotate_def)

definition fetch_world :: "string \<Rightarrow> nat \<Rightarrow> nat \<Rightarrow> world \<Rightarrow> world" where
  "fetch_world t offs b w = w\<lparr>cursor_script := tl (cursor_script w), trace := trace w @ [Fetch t offs b]\<rparr>"

lemma tools_extract_rows:
  assumes "list_all (\<lambda>x. x = Succeeds) (cursor_script w)"
    and "map_of (source_db w) t = Some rows"
    and "load_indicator_csv t w \<noteq> []"
    and "take b (drop offs rows) \<noteq> []"
  shows "tools_extract_table_data t offs b w
           = (Inr (Some (map (annotate (load_indicator_csv t w)) (take b (drop offs rows)))),
              fetch_world t offs b w)"
  using assms
  by (cases "cursor_script w")
     (simp_all add: tools_extract_table_data_def cursor_execute_def emit_def Let_def fetch_world_def)

lemma extractor_rows:
  assumes "list_all (\<lambda>x. x = Succeeds) (cursor_script w)"
    and "map_of (source_db w) t = Some rows"
    and "load_indicator_csv t w \<noteq> []"
    and "take b (drop offs rows) \<noteq> []"
  shows "Extractor_extract_table_data t offs b w
           = (Inr (Some (map (annotate (load_indicator_csv t w)) (take b (drop offs rows)))),
              fetch_world t offs b w)"
  using tools_extract_rows[OF assms]
  by (simp add: Extractor_extract_table_data_def extract_attempts.simps[of 0] max_retries_def)

lemma extractor_no_rows:
  assumes "list_all (\<lambda>x. x = Succeeds) (cursor_script w)"
    and "map_of (source_db w) t = Some rows"
    and "take b (drop offs rows) = []"
  shows "Extractor_extract_table_data t offs b w = (Inr None, fetch_world t offs b w)"
proof -
  have "cursor_script w = [] \<or> cursor_script w = Succeeds # tl (cursor_script w)"
    using assms(1) by (cases "cursor_script w") auto
  then have "tools_extract_table_data t offs b w = (Inr None, fetch_world t offs b w)"
    using tools_no_rows[of w "tl (cursor_script w)" t rows b offs] assms(2,3)
    by (simp add: fetch_world_def)
  then show ?thesis by (rule first_attempt_none)
qed

definition batch_entry :: "nat \<Rightarrow> nat \<Rightarrow> ckpt_entry" where
  "batch_entry n rows_total =
     \<lparr>offset = n, total_extracted = n, total_rows = rows_total,
      percentage = percentage_of n rows_total, completed = False\<rparr>"

definition batch_world ::
  "string \<Rightarrow> nat \<Rightarrow> nat \<Rightarrow> row list \<Rightarrow> (string, ckpt_entry) dict \<Rightarrow> world \<Rightarrow> world" where
  "batch_world t offs b data info' w =
     w\<lparr>cursor_script := tl (cursor_script w),
       trace := trace w @ [Fetch t offs b, Insert t data, Save info'],
       dest_db := (create_if_absent t (dest_db w))(t \<mapsto> table_rows (dest_db w) t @ sanitize_batch data),
       ckpt_file := Some info'\<rparr>"

lemma turn_batch:
  assumes "list_all (\<lambda>x. x = Succeeds) (cursor_script w)"
    and "map_of (source_db w) t = Some rows"
    and "load_indicator_csv t w \<noteq> []"
    and "take b (drop offs rows) \<noteq> []"
    and "data = map (annotate (load_indicator_csv t w)) (take b (drop offs rows))"
    and "info' = AList.update t (batch_entry (offs + length data) rows_total) info"
  shows "loop_turn b t rows_total offs offs info w
           = (if offs + length data \<ge> rows_total then Break info' (batch_world t offs b data info' w)
              else Continue (offs + length data) (offs + length data) info' (batch_world t offs b data info' w))"
proof -
  have d: "data \<noteq> []" "\<forall>r \<in> set data. length r = 3"
    using assms(4,5) by (auto simp: length_annotate)
  have l: "Loader_load_batch_into_database t data (fetch_world t offs b w)
        = (Inr (), (emit (Insert t data) (fetch_world t offs b w))
             \<lparr>dest_db := (create_if_absent t (dest_db w))(t \<mapsto> table_rows (dest_db w) t @ sanitize_batch data)\<rparr>)"
    using load_batch_ok[OF d, of "dest_db w" t]
    by (simp add: Loader_load_batch_into_database_def fetch_world_def)
  show ?thesis
    using extractor_rows[OF assms(1-4)] d(1) l assms(5,6)
    by (simp add: loop_turn_def Let_def batch_entry_def batch_world_def save_last_extracted_def
        emit_def fetch_world_def)
qed


definition healthy :: "string \<Rightarrow> raw_row list \<Rightarrow> world \<Rightarrow> bool" where
  "healthy t rows w =
     (list_all (\<lambda>x. x = Succeeds) (cursor_script w) \<and> map_of (source_db w) t = Some rows
      \<and> load_indicator_csv t w \<noteq> [])"

lemma healthy_batch_world:
  "healthy t rows w \<Longrightarrow> healthy t rows (batch_world t offs b data info' w)"
  by (cases "cursor_script w") (auto simp: healthy_def batch_world_def load_indicator_csv_def)

lemma saved_entries_append:
  "saved_entries t (xs @ ys) = saved_entries t xs @ saved_entries t ys"
  by (induction t xs rule: saved_entries.induct) (auto split: option.splits)

definition loop_post ::
  "string \<Rightarrow> nat \<Rightarrow> nat \<Rightarrow> nat \<Rightarrow> (string, ckpt_entry) dict \<Rightarrow> world
     \<Rightarrow> (string, ckpt_entry) dict \<Rightarrow> world \<Rightarrow> ckpt_entry list \<Rightarrow> bool" where
  "loop_post t b rows_total offs info w info' w' bs =
     ((\<exists>new. trace w' = trace w @ new \<and> saved_entries t new = bs)
      \<and> strict_steps b offs (map offset bs)
      \<and> list_all (\<lambda>e. \<not> completed e \<and> total_extracted e = offset e \<and> total_rows e = rows_total) bs
      \<and> last (offs # map offset bs) = rows_total
      \<and> (if bs = [] then info' = info \<and> ckpt_file w' = ckpt_file w
          else map_of info' t = Some (last bs) \<and> ckpt_file w' = Some info'))"

lemma copy_loop_success:
  assumes "healthy t rows w" and "0 < b" and "offs \<le> length rows"
  shows "\<exists>info' w' bs. copy_loop b t (length rows) offs offs info w = (Inr info', w')
           \<and> loop_post t b (length rows) offs info w info' w' bs"
  using assms
proof (induction "length rows - offs" arbitrary: offs info w rule: less_induct)
  case less
  let ?R = "length rows"
  let ?raw = "take b (drop offs rows)"
  have h: "list_all (\<lambda>x. x = Succeeds) (cursor_script w)" "map_of (source_db w) t = Some rows"
    "load_indicator_csv t w \<noteq> []"
    using less.prems(1) by (auto simp: healthy_def)
  show ?case
  proof (cases "offs = ?R")
    case True
    then have "?raw = []" by simp
    then have "Extractor_extract_table_data t offs b w = (Inr None, fetch_world t offs b w)"
      using extractor_no_rows[OF h(1,2)] by simp
    then have "copy_loop b t ?R offs offs info w = (Inr info, fetch_world t offs b w)"
      by (simp add: copy_loop.simps[of b t ?R offs offs info w] loop_turn_def)
    moreover have "loop_post t b ?R offs info w info (fetch_world t offs b w) []"
      using True by (simp add: loop_post_def fetch_world_def)
    ultimately show ?thesis by blast
  next
    case False
    with less.prems(3) have lt: "offs < ?R" by simp
    define data where "data = map (annotate (load_indicator_csv t w)) ?raw"
    define offs' where "offs' = offs + length data"
    define info' where "info' = AList.update t (batch_entry offs' ?R) info"
    define w3 where "w3 = batch_world t offs b data info' w"
    have len: "length data = min b (?R - offs)" by (simp add: data_def)
    have raw: "?raw \<noteq> []" using lt less.prems(2) by simp
    have step: "offs < offs'" "offs' \<le> offs + b" "offs' \<le> ?R"
      using len lt less.prems(2) by (auto simp: offs'_def)
    have turn: "loop_turn b t ?R offs offs info w
           = (if offs' \<ge> ?R then Break info' w3 else Continue offs' offs' info' w3)"
      using turn_batch[OF h raw data_def, of info' ?R info]
      by (simp add: offs'_def info'_def w3_def)
    have h3: "healthy t rows w3"
      unfolding w3_def using less.prems(1) by (rule healthy_batch_world)
    have tr3: "trace w3 = trace w @ [Fetch t offs b, Insert t data, Save info']"
      by (simp add: w3_def batch_world_def)
    have ent: "map_of info' t = Some (batch_entry offs' ?R)"
      by (simp add: info'_def update_conv')
    have se3: "saved_entries t [Fetch t offs b, Insert t data, Save info'] = [batch_entry offs' ?R]"
      by (simp add: ent)
    have ck3: "ckpt_file w3 = Some info'" by (simp add: w3_def batch_world_def)
    show ?thesis
    proof (cases "offs' \<ge> ?R")
      case True
      with step have eq: "offs' = ?R" by simp
      have "copy_loop b t ?R offs offs info w = (Inr info', w3)"
        using turn True by (simp add: copy_loop.simps[of b t ?R offs offs info w])
      moreover have "loop_post t b ?R offs info w info' w3 [batch_entry offs' ?R]"
        unfolding loop_post_def using tr3 se3 step ent ck3 eq
        by (auto simp: batch_entry_def)
      ultimately show ?thesis by blast
    next
      case False
      then have c: "copy_loop b t ?R offs offs info w = copy_loop b t ?R offs' offs' info' w3"
        using turn by (simp add: copy_loop.simps[of b t ?R offs offs info w])
      have "?R - offs' < ?R - offs" using step lt by simp
      from less.hyps[OF this h3 less.prems(2) step(3)]
      obtain info'' w'' bs where
        r: "copy_loop b t ?R offs' offs' info' w3 = (Inr info'', w'')"
        and p: "loop_post t b ?R offs' info' w3 info'' w'' bs"
        by blast
      from p obtain new where new: "trace w'' = trace w3 @ new" "saved_entries t new = bs"
        by (auto simp: loop_post_def)
      have t1: "trace w'' = trace w @ ([Fetch t offs b, Insert t data, Save info'] @ new)"
        using new(1) tr3 by simp
      have t2: "saved_entries t ([Fetch t offs b, Insert t data, Save info'] @ new)
                  = batch_entry offs' ?R # bs"
        using se3 new(2) by (simp only: saved_entries_append) simp
      have "loop_post t b ?R offs info w info'' w'' (batch_entry offs' ?R # bs)"
        unfolding loop_post_def
      proof (intro conjI)
        show "\<exists>new. trace w'' = trace w @ new \<and> saved_entries t new = batch_entry offs' ?R # bs"
          using t1 t2 by blast
        show "strict_steps b offs (map offset (batch_entry offs' ?R # bs))"
          using p step by (simp add: loop_post_def batch_entry_def)
        show "list_all (\<lambda>e. \<not> completed e \<and> total_extracted e = offset e \<and> total_rows e = ?R)
                (batch_entry offs' ?R # bs)"
          using p by (simp add: loop_post_def batch_entry_def)
        show "last (offs # map offset (batch_entry offs' ?R # bs)) = ?R"
          using p by (simp add: loop_post_def batch_entry_def)
        show "if batch_entry offs' ?R # bs = [] then info'' = info \<and> ckpt_file w'' = ckpt_file w
              else map_of info'' t = Some (last (batch_entry offs' ?R # bs)) \<and> ckpt_file w'' = Some info''"
          using p ent ck3 by (cases "bs = []") (simp_all add: loop_post_def)
      qed
      with c r show ?thesis by auto
    qed
  qed
qed

text \<open>
  C2. A run of \<open>process_table_completely\<close> in which every fetch succeeds, on a table
  of R rows with an indicator mapping and a batch size B > 0, starting from a stored
  offset that is at most R (or from no entry, on a table that is not empty): the run ends
  without an exception; the entries it persists for the table are the batch entries
  \<open>bs\<close> followed by one final entry \<open>f\<close>; the offsets of the batch entries rise from
  the stored offset, each step at least one row and at most B rows, and end at R; every
  persisted entry has offset = total_extracted; no batch entry is completed; and the final
  entry, which is the stored checkpoint afterwards, has offset R and is completed.
\<close>

theorem checkpoint_advances_to_total:
  assumes "list_all (\<lambda>x. x = Succeeds) (cursor_script w)"
    and "map_of (source_db w) T = Some rows"
    and "load_indicator_csv T w \<noteq> []"
    and "0 < B"
    and "case map_of (load_last_extracted w) T of
           None \<Rightarrow> rows \<noteq> []
         | Some e \<Rightarrow> offset e \<le> length rows \<and> total_extracted e = offset e"
  shows "\<exists>w' new bs f.
           process_table_completely B T w = (Inr (), w')
           \<and> trace w' = trace w @ new
           \<and> saved_entries T new = bs @ [f]
           \<and> strict_steps B (stored_offset (load_last_extracted w) T) (map offset bs)
           \<and> last (stored_offset (load_last_extracted w) T # map offset bs) = length rows
           \<and> (\<forall>e \<in> set (bs @ [f]). total_extracted e = offset e)
           \<and> (\<forall>e \<in> set bs. \<not> completed e)
           \<and> offset f = length rows \<and> completed f
           \<and> map_of (load_last_extracted w') T = Some f"
proof -
  let ?info = "load_last_extracted w"
  let ?o = "stored_offset ?info T"
  let ?R = "length rows"
  have o_le: "?o \<le> ?R"
    using assms(5) by (simp add: stored_offset_def split: option.splits)
  have hl: "healthy T rows w"
    using assms(1-3) by (simp add: healthy_def)
  from copy_loop_success[OF hl assms(4) o_le, of ?info]
  obtain info' w1 bs where
    loop: "copy_loop B T ?R ?o ?o ?info w = (Inr info', w1)"
    and post: "loop_post T B ?R ?o ?info w info' w1 bs"
    by blast
  from post obtain new where new: "trace w1 = trace w @ new" "saved_entries T new = bs"
    by (auto simp: loop_post_def)
  have steps: "strict_steps B ?o (map offset bs)" and lst: "last (?o # map offset bs) = ?R"
    and inv: "list_all (\<lambda>e. \<not> completed e \<and> total_extracted e = offset e \<and> total_rows e = ?R) bs"
    using post by (auto simp: loop_post_def)
  have "\<exists>e. map_of info' T = Some e \<and> offset e = ?R \<and> total_extracted e = offset e"
  proof (cases "bs = []")
    case True
    then have i: "info' = ?info" and oR: "?o = ?R" using post by (auto simp: loop_post_def)
    show ?thesis
    proof (cases "map_of ?info T")
      case None
      then have "?o = 0" by (simp add: stored_offset_def)
      with oR None assms(5) show ?thesis by simp
    next
      case (Some e)
      then show ?thesis using assms(5) oR i by (simp add: stored_offset_def)
    qed
  next
    case False
    then have m: "map_of info' T = Some (last bs)" using post by (auto simp: loop_post_def)
    have "last bs \<in> set bs" using False by simp
    then have "total_extracted (last bs) = offset (last bs)"
      using inv by (auto simp: list_all_iff)
    moreover have "offset (last bs) = ?R"
      using lst False by (simp add: last_map)
    ultimately show ?thesis using m by simp
  qed
  then obtain e where e: "map_of info' T = Some e" "offset e = ?R" "total_extracted e = offset e"
    by blast
  define f where "f = e\<lparr>completed := True\<rparr>"
  define final where "final = AList.update T f info'"
  define w' where "w' = save_last_extracted final w1"
  have p: "process_table_completely B T w = (Inr (), w')"
    using loop e(1) assms(2)
    by (simp add: process_table_completely_def Let_def get_total_rows_def stored_offset_def
        w'_def final_def f_def)
  have mf: "map_of final T = Some f" by (simp add: final_def update_conv')
  have tr: "trace w' = trace w @ (new @ [Save final])"
    using new(1) by (simp add: w'_def save_last_extracted_def emit_def)
  have se: "saved_entries T (new @ [Save final]) = bs @ [f]"
    using new(2) mf by (simp add: saved_entries_append)
  have ld: "map_of (load_last_extracted w') T = Some f"
    using mf by (simp add: w'_def save_last_extracted_def emit_def load_last_extracted_def)
  have a1: "\<forall>e \<in> set (bs @ [f]). total_extracted e = offset e"
    using inv e(3) by (auto simp: list_all_iff f_def)
  have a2: "\<forall>e \<in> set bs. \<not> completed e"
    using inv by (auto simp: list_all_iff)
  have a3: "offset f = ?R \<and> completed f" using e(2) by (simp add: f_def)
  show ?thesis
    using p tr se steps lst a1 a2 a3 ld by blast
qed

definition three_row_world :: world where
  "three_row_world =
     \<lparr>source_db = [(''CALIS_APG43_5_S12_A2024'',
          [(PyDatetime 1, PyInt 7, PyFloat (Num 1)), (PyDatetime 2, PyInt 7, PyFloat (Num 2)),
           (PyDatetime 3, PyInt 7, PyFloat (Num 3))])],
      indicator_files = [''CALIS_APG43_5'' \<mapsto> [(7, ''VoiproITRALAC.nw'')]],
      dest_db = Map.empty,
      ckpt_file = None,
      cursor_script = [],
      manifests = None,
      trace = []\<rparr>"

lemma three_row_indicators:
  "load_indicator_csv ''CALIS_APG43_5_S12_A2024'' three_row_world = [(7, ''VoiproITRALAC.nw'')]"
  by code_simp

theorem checkpoint_advances_to_total_witness:
  "\<exists>w' f. process_table_completely 2 ''CALIS_APG43_5_S12_A2024'' three_row_world = (Inr (), w')
      \<and> map_of (load_last_extracted w') ''CALIS_APG43_5_S12_A2024'' = Some f
      \<and> offset f = 3 \<and> completed f"
proof -
  have rows: "map_of (source_db three_row_world) ''CALIS_APG43_5_S12_A2024''
      = Some [(PyDatetime 1, PyInt 7, PyFloat (Num 1)), (PyDatetime 2, PyInt 7, PyFloat (Num 2)),
           (PyDatetime 3, PyInt 7, PyFloat (Num 3))]"
    by (simp add: three_row_world_def)
  have "list_all (\<lambda>x. x = Succeeds) (cursor_script three_row_world)"
    by (simp add: three_row_world_def)
  moreover have "load_indicator_csv ''CALIS_APG43_5_S12_A2024'' three_row_world \<noteq> []"
    by (simp add: three_row_indicators)
  moreover have "case map_of (load_last_extracted three_row_world) ''CALIS_APG43_5_S12_A2024'' of
           None \<Rightarrow> [(PyDatetime 1, PyInt 7, PyFloat (Num 1)), (PyDatetime 2, PyInt 7, PyFloat (Num 2)),
           (PyDatetime 3, PyInt 7, PyFloat (Num 3))] \<noteq> []
         | Some e \<Rightarrow> offset e \<le> length [(PyDatetime 1, PyInt 7, PyFloat (Num 1)), (PyDatetime 2, PyInt 7, PyFloat (Num 2)),
           (PyDatetime 3, PyInt 7, PyFloat (Num 3))] \<and> total_extracted e = offset e"
    by (simp add: three_row_world_def load_last_extracted_def)
  ultimately show ?thesis
    using checkpoint_advances_to_total[OF _ rows, of 2] by fastforce
qed

subsection \<open>Skipping a completed table\<close>

text \<open>
  \<open>apart T w w'\<close>: from \<open>w\<close> to \<open>w'\<close> no event fetched from or inserted into
  table \<open>T\<close>, and the destination rows of \<open>T\<close> are the same.
\<close>

definition apart :: "string \<Rightarrow> world \<Rightarrow> world \<Rightarrow> bool" where
  "apart T w w' =
     ((\<exists>new. trace w' = trace w @ new \<and> list_all (\<lambda>ev. \<not> touches T ev) new)
      \<and> dest_db w' T = dest_db w T)"

lemma apart_refl: "apart T w w"
  by (simp add: apart_def)

lemma apart_trans: "apart T w w1 \<Longrightarrow> apart T w1 w2 \<Longrightarrow> apart T w w2"
  by (auto simp: apart_def)

lemma tools_extract_apart:
  assumes "t \<noteq> T" and "tools_extract_table_data t offs b w = (r, w1)"
  shows "apart T w w1 \<and> ckpt_file w1 = ckpt_file w"
  using assms
  by (auto simp: tools_extract_table_data_def cursor_execute_def emit_def Let_def apart_def
      split: list.splits cursor_outcome.splits option.splits if_splits)

lemma sleep_apart: "apart T w (emit (Sleep n) w) \<and> ckpt_file (emit (Sleep n) w) = ckpt_file w"
  by (simp add: apart_def emit_def)

lemma extract_attempts_apart:
  assumes "t \<noteq> T" and "extract_attempts attempt t offs b w = (r, w1)"
  shows "apart T w w1 \<and> ckpt_file w1 = ckpt_file w"
  using assms
proof (induction attempt t offs b w rule: extract_attempts.induct)
  case (1 attempt table_name offs batch_size w)
  show ?case
  proof (cases "attempt < max_retries + 1")
    case False
    with "1.prems" show ?thesis
      by (simp add: extract_attempts.simps[of attempt] apart_refl)
  next
    case True
    obtain r0 w0 where t0: "tools_extract_table_data table_name offs batch_size w = (r0, w0)"
      by (cases "tools_extract_table_data table_name offs batch_size w")
    note f0 = tools_extract_apart[OF "1.prems"(1) t0]
    show ?thesis
    proof (cases r0)
      case (Inr d)
      with True t0 "1.prems"(2) have "w1 = w0"
        by (simp add: extract_attempts.simps[of attempt])
      with f0 show ?thesis by simp
    next
      case (Inl e)
      show ?thesis
      proof (cases "attempt < max_retries")
        case False
        with True t0 Inl "1.prems"(2) have "w1 = w0"
          by (simp add: extract_attempts.simps[of attempt])
        with f0 show ?thesis by simp
      next
        case a: True
        let ?w = "emit (Sleep (retry_delay * 2 ^ attempt)) w0"
        have rec: "extract_attempts (attempt + 1) table_name offs batch_size ?w = (r, w1)"
          using True a t0 Inl "1.prems"(2) by (simp add: extract_attempts.simps[of attempt])
        have "apart T ?w w1 \<and> ckpt_file w1 = ckpt_file ?w"
          using "1.IH"[OF True t0[symmetric] _ a "1.prems"(1) rec] Inl by simp
        with f0 sleep_apart[of T w0] show ?thesis
          by (metis apart_trans)
      qed
    qed
  qed
qed

lemma loader_apart:
  assumes "t \<noteq> T" and "Loader_load_batch_into_database t data w = (r, w1)"
  shows "apart T w w1 \<and> ckpt_file w1 = ckpt_file w"
  using assms
  by (auto simp: Loader_load_batch_into_database_def load_batch_into_database_def Let_def
      create_if_absent_def emit_def apart_def split: list.splits option.splits if_splits)

lemma save_apart: "apart T w (save_last_extracted d w)"
  by (simp add: apart_def save_last_extracted_def emit_def)


text \<open>
  What a turn of the copy loop for table \<open>t\<close> leaves alone of another table \<open>T\<close>:
  no event touches it, its destination rows stay, and both the dictionary in hand and
  the checkpoint file keep its entry.
\<close>

definition keeps ::
  "string \<Rightarrow> ckpt_entry option \<Rightarrow> world \<Rightarrow> (string, ckpt_entry) dict \<Rightarrow> world \<Rightarrow> bool" where
  "keeps T X w info' w' =
     (apart T w w' \<and> map_of info' T = X \<and> map_of (load_last_extracted w') T = X)"

lemma loop_turn_keeps:
  assumes "t \<noteq> T" and "map_of info T = X" and "map_of (load_last_extracted w) T = X"
  shows "case loop_turn b t R offs ex info w of
           Raised e w' \<Rightarrow> keeps T X w info w'
         | Break info' w' \<Rightarrow> keeps T X w info' w'
         | Continue offs' ex' info' w' \<Rightarrow> keeps T X w info' w'"
proof -
  obtain r0 w0 where x: "Extractor_extract_table_data t offs b w = (r0, w0)"
    by (cases "Extractor_extract_table_data t offs b w")
  have f0: "apart T w w0" "ckpt_file w0 = ckpt_file w"
    using extract_attempts_apart[OF assms(1)] x by (auto simp: Extractor_extract_table_data_def)
  have k0: "keeps T X w info w0"
    using f0 assms(2,3) by (simp add: keeps_def load_last_extracted_def)
  show ?thesis
  proof (cases r0)
    case (Inl e)
    with x k0 show ?thesis by (simp add: loop_turn_def)
  next
    case (Inr d)
    show ?thesis
    proof (cases "d = None \<or> d = Some []")
      case True
      with x Inr k0 show ?thesis by (auto simp: loop_turn_def)
    next
      case False
      then obtain data where d: "d = Some data" "data \<noteq> []" by auto
      obtain r1 w1 where l: "Loader_load_batch_into_database t data w0 = (r1, w1)"
        by (cases "Loader_load_batch_into_database t data w0")
      have f1: "apart T w0 w1" "ckpt_file w1 = ckpt_file w0"
        using loader_apart[OF assms(1) l] by auto
      have a1: "apart T w w1" using f0(1) f1(1) by (rule apart_trans)
      show ?thesis
      proof (cases r1)
        case (Inl e)
        have "keeps T X w info w1"
          using a1 f0(2) f1(2) assms(2,3) by (simp add: keeps_def load_last_extracted_def)
        with x Inr d l Inl show ?thesis by (simp add: loop_turn_def)
      next
        case (Inr u)
        have "keeps T X w (AList.update t e info) (save_last_extracted (AList.update t e info) w1)"
          for e
          using apart_trans[OF a1 save_apart] assms(1,2)
          by (simp add: keeps_def update_conv' load_last_extracted_def save_last_extracted_def emit_def)
        with x \<open>r0 = Inr d\<close> d l Inr show ?thesis by (simp add: loop_turn_def Let_def)
      qed
    qed
  qed
qed

lemma keeps_trans:
  "keeps T X w info1 w1 \<Longrightarrow> keeps T X w1 info2 w2 \<Longrightarrow> keeps T X w info2 w2"
  by (auto simp: keeps_def intro: apart_trans)

lemma copy_loop_keeps:
  assumes "t \<noteq> T" and "map_of info T = X" and "map_of (load_last_extracted w) T = X"
    and "copy_loop b t R offs ex info w = (r, w')"
  shows "apart T w w' \<and> map_of (load_last_extracted w') T = X
         \<and> (\<forall>info'. r = Inr info' \<longrightarrow> map_of info' T = X)"
  using assms
proof (induction b t R offs ex info w rule: copy_loop.induct)
  case (1 b t R offs ex info w)
  note turn = loop_turn_keeps[OF "1.prems"(1-3), of b R offs ex]
  show ?case
  proof (cases "loop_turn b t R offs ex info w")
    case (Raised e w0)
    with turn "1.prems"(4) show ?thesis
      by (auto simp: copy_loop.simps[of b t R offs ex info w] keeps_def)
  next
    case (Break info0 w0)
    with turn "1.prems"(4) show ?thesis
      by (auto simp: copy_loop.simps[of b t R offs ex info w] keeps_def)
  next
    case (Continue offs0 ex0 info0 w0)
    with turn have k: "keeps T X w info0 w0" by simp
    have rec: "copy_loop b t R offs0 ex0 info0 w0 = (r, w')"
      using Continue "1.prems"(4) by (simp add: copy_loop.simps[of b t R offs ex info w])
    have "apart T w0 w' \<and> map_of (load_last_extracted w') T = X
         \<and> (\<forall>info'. r = Inr info' \<longrightarrow> map_of info' T = X)"
      using "1.IH"[OF Continue "1.prems"(1) _ _ rec] k by (simp add: keeps_def)
    with k show ?thesis by (auto simp: keeps_def intro: apart_trans)
  qed
qed

lemma process_table_completely_keeps:
  assumes "t \<noteq> T" and "process_table_completely b t w = (r, w')"
  shows "apart T w w' \<and> map_of (load_last_extracted w') T = map_of (load_last_extracted w) T"
proof (cases "get_total_rows t w")
  case (Inl e)
  with assms(2) show ?thesis
    by (simp add: process_table_completely_def Let_def apart_refl)
next
  case (Inr R)
  let ?info = "load_last_extracted w"
  let ?o = "case map_of ?info t of Some e \<Rightarrow> offset e | None \<Rightarrow> 0"
  obtain r1 w1 where c: "copy_loop b t R ?o ?o ?info w = (r1, w1)"
    by (cases "copy_loop b t R ?o ?o ?info w")
  note k = copy_loop_keeps[OF assms(1) refl refl c]
  show ?thesis
  proof (cases r1)
    case (Inl e)
    with assms(2) Inr c k show ?thesis
      by (simp add: process_table_completely_def Let_def)
  next
    case r1: (Inr info')
    show ?thesis
    proof (cases "map_of info' t")
      case None
      with assms(2) Inr c r1 k show ?thesis
        by (simp add: process_table_completely_def Let_def)
    next
      case (Some e)
      let ?final = "AList.update t (e\<lparr>completed := True\<rparr>) info'"
      have w': "w' = save_last_extracted ?final w1"
        using assms(2) Inr c r1 Some by (simp add: process_table_completely_def Let_def)
      have "map_of ?final T = map_of ?info T"
        using k r1 assms(1) by (simp add: update_conv')
      then have "map_of (load_last_extracted w') T = map_of ?info T"
        by (simp add: w' load_last_extracted_def save_last_extracted_def emit_def)
      moreover have "apart T w w'"
        unfolding w' using k save_apart by (blast intro: apart_trans)
      ultimately show ?thesis by simp
    qed
  qed
qed

lemma orchestrate_tables_keeps:
  assumes "already_completed info T" and "orchestrate_tables b info tables w = (r, w')"
  shows "apart T w w' \<and> map_of (load_last_extracted w') T = map_of (load_last_extracted w) T"
  using assms(2)
proof (induction tables arbitrary: w)
  case Nil
  then show ?case by (simp add: apart_refl)
next
  case (Cons t ts)
  show ?case
  proof (cases "already_completed info t")
    case True
    with Cons show ?thesis by simp
  next
    case False
    with assms(1) have ne: "t \<noteq> T" by auto
    obtain r1 w1 where p: "process_table_completely b t w = (r1, w1)"
      by (cases "process_table_completely b t w")
    note k = process_table_completely_keeps[OF ne p]
    show ?thesis
    proof (cases r1)
      case (Inl e)
      with Cons.prems False p k show ?thesis by simp
    next
      case (Inr u)
      with Cons.prems False p have "orchestrate_tables b info ts w1 = (r, w')" by simp
      from Cons.IH[OF this] k show ?thesis by (auto intro: apart_trans)
    qed
  qed
qed

text \<open>
  C3. A table whose checkpoint entry is completed when \<open>process_orchestration\<close>
  starts is skipped: however the run ends, none of its events is a fetch from the table
  or an insert into it, the table's checkpoint entry is the same afterwards, and so are
  its rows in the destination.
\<close>

theorem completed_table_is_skipped:
  assumes "map_of (load_last_extracted w) T = Some e" and "completed e"
  shows "\<exists>r w' new. process_orchestration B w = (r, w')
           \<and> trace w' = trace w @ new
           \<and> list_all (\<lambda>ev. \<not> touches T ev) new
           \<and> map_of (load_last_extracted w') T = Some e
           \<and> dest_db w' T = dest_db w T"
proof -
  obtain r w' where p: "process_orchestration B w = (r, w')"
    by (cases "process_orchestration B w")
  have "apart T w w' \<and> map_of (load_last_extracted w') T = Some e"
  proof (cases "process_tables_names (map fst (source_db w)) patterns START_DATE")
    case (Inl x)
    with p assms show ?thesis
      by (simp add: process_orchestration_def Extractor_process_tables_names_def apart_refl)
  next
    case (Inr sel)
    let ?w1 = "w\<lparr>manifests := Some sel\<rparr>"
    have l1: "load_last_extracted ?w1 = load_last_extracted w"
      by (simp add: load_last_extracted_def)
    have o: "orchestrate_tables B (load_last_extracted w) (unified_sorted_tables sel) ?w1 = (r, w')"
      using p Inr by (simp add: process_orchestration_def Extractor_process_tables_names_def l1)
    have "already_completed (load_last_extracted w) T"
      using assms by (simp add: already_completed_def)
    from orchestrate_tables_keeps[OF this o]
    have "apart T ?w1 w'" "map_of (load_last_extracted w') T = Some e"
      using assms(1) l1 by auto
    moreover have "apart T w ?w1" by (simp add: apart_def)
    ultimately show ?thesis by (blast intro: apart_trans)
  qed
  with p show ?thesis by (auto simp: apart_def)
qed


definition resumed_world :: world where
  "resumed_world =
     \<lparr>source_db =
        [(''CALIS_APG43_5_S12_A2024'',
          [(PyDatetime 1, PyInt 7, PyFloat (Num 1)), (PyDatetime 2, PyInt 7, PyFloat (Num 2))]),
         (''MEIND_APG43_5_S13_A2024'', [(PyDatetime 3, PyInt 7, PyFloat (Num 3))])],
      indicator_files = [''CALIS_APG43_5'' \<mapsto> [(7, ''VoiproITRALAC.nw'')],
                         ''MEIND_APG43_5'' \<mapsto> [(7, ''VoiproITRALAC.nw'')]],
      dest_db = [''CALIS_APG43_5_S12_A2024'' \<mapsto>
          [[PyDatetime 1, PyStr ''VoiproITRALAC.nw'', PyFloat (Num 1)],
           [PyDatetime 2, PyStr ''VoiproITRALAC.nw'', PyFloat (Num 2)]]],
      ckpt_file = Some [(''CALIS_APG43_5_S12_A2024'',
          \<lparr>offset = 2, total_extracted = 2, total_rows = 2, percentage = 10000,
           completed = True\<rparr>)],
      cursor_script = [],
      manifests = None,
      trace = []\<rparr>"

theorem completed_table_is_skipped_witness:
  "map_of (load_last_extracted (snd (process_orchestration 2 resumed_world))) ''CALIS_APG43_5_S12_A2024''
     = Some \<lparr>offset = 2, total_extracted = 2, total_rows = 2, percentage = 10000, completed = True\<rparr>
   \<and> filter (touches ''CALIS_APG43_5_S12_A2024'') (trace (snd (process_orchestration 2 resumed_world))) = []
   \<and> dest_db (snd (process_orchestration 2 resumed_world)) ''CALIS_APG43_5_S12_A2024''
     = dest_db resumed_world ''CALIS_APG43_5_S12_A2024''"
proof -
  have "map_of (load_last_extracted resumed_world) ''CALIS_APG43_5_S12_A2024''
     = Some \<lparr>offset = 2, total_extracted = 2, total_rows = 2, percentage = 10000, completed = True\<rparr>"
    by (simp add: resumed_world_def load_last_extracted_def)
  from completed_table_is_skipped[OF this, of 2]
  obtain r w' new where
    "process_orchestration 2 resumed_world = (r, w')"
    "trace w' = trace resumed_world @ new"
    "list_all (\<lambda>ev. \<not> touches ''CALIS_APG43_5_S12_A2024'' ev) new"
    "map_of (load_last_extracted w') ''CALIS_APG43_5_S12_A2024''
       = Some \<lparr>offset = 2, total_extracted = 2, total_rows = 2, percentage = 10000, completed = True\<rparr>"
    "dest_db w' ''CALIS_APG43_5_S12_A2024'' = dest_db resumed_world ''CALIS_APG43_5_S12_A2024''"
    by auto
  moreover have "trace resumed_world = []" by (simp add: resumed_world_def)
  ultimately show ?thesis
    by (simp add: list_all_iff filter_empty_conv)
qed

subsection \<open>The formula table: counters split into a high and a low half\<close>





subsection \<open>KPI evaluation: missing counters and zero denominators\<close>





subsection \<open>Suffixes and operators\<close>

lemma py_in_iff: "py_in k s \<longleftrightarrow> (\<exists>u v. s = u @ k @ v)"
proof (induction s)
  case Nil
  then show ?case by auto
next
  case (Cons c s)
  have p: "take (length k) (c # s) = k \<longleftrightarrow> (\<exists>v. c # s = k @ v)"
    by (metis append_eq_conv_conj append_take_drop_id)
  show ?case
  proof
    assume "py_in k (c # s)"
    then consider "take (length k) (c # s) = k" | "py_in k s" by auto
    then show "\<exists>u v. c # s = u @ k @ v"
    proof cases
      case 1
      with p obtain v where "c # s = k @ v" by blast
      then have "c # s = [] @ k @ v" by simp
      then show ?thesis by blast
    next
      case 2
      with Cons.IH obtain u v where "s = u @ k @ v" by blast
      then have "c # s = (c # u) @ k @ v" by simp
      then show ?thesis by blast
    qed
  next
    assume "\<exists>u v. c # s = u @ k @ v"
    then obtain u v where e: "c # s = u @ k @ v" by blast
    show "py_in k (c # s)"
    proof (cases u)
      case Nil
      with e have "\<exists>v. c # s = k @ v" by auto
      with p have "take (length k) (c # s) = k" by blast
      then show ?thesis by (simp only: py_in.simps) simp
    next
      case (Cons a u')
      with e have "s = u' @ k @ v" by simp
      with Cons.IH show ?thesis by auto
    qed
  qed
qed

text \<open>
  A key matches a suffix when it is not empty and occurs in the suffix, both read in
  lower case.
\<close>

definition key_matches :: "string \<Rightarrow> string \<Rightarrow> bool" where
  "key_matches k s = (k \<noteq> [] \<and> (\<exists>u v. str_lower s = u @ str_lower k @ v))"

lemma key_matches_code:
  "key_matches k s \<longleftrightarrow> k \<noteq> [] \<and> py_in (str_lower k) (str_lower s)"
  by (simp add: key_matches_def py_in_iff)

lemma resolve_operator_find:
  "resolve_operator mapping s =
     (case find (\<lambda>(k, v). key_matches k s) mapping of Some (k, v) \<Rightarrow> v | None \<Rightarrow> ''Other'')"
  by (simp add: resolve_operator_def key_matches_code)

lemma resolve_first:
  assumes "i < length mapping" and "key_matches (fst (mapping ! i)) s"
    and "\<forall>j<i. \<not> key_matches (fst (mapping ! j)) s"
  shows "resolve_operator mapping s = snd (mapping ! i)"
proof -
  have "find (\<lambda>(k, v). key_matches k s) mapping = Some (mapping ! i)"
    unfolding find_Some_iff using assms by (auto simp: case_prod_unfold)
  then show ?thesis
    by (simp add: resolve_operator_find case_prod_unfold)
qed

lemma resolve_none:
  assumes "\<forall>i<length mapping. \<not> key_matches (fst (mapping ! i)) s"
  shows "resolve_operator mapping s = ''Other''"
proof -
  have "find (\<lambda>(k, v). key_matches k s) mapping = None"
    unfolding find_None_iff using assms by (auto simp: in_set_conv_nth)
  then show ?thesis by (simp add: resolve_operator_find)
qed

lemma split_rows_mem:
  assumes "(d, ind, v) \<in> set df" and "extract_indicateur_suffixe ind = (p, Some s)" and "s \<noteq> ''M''"
  shows "(p, s, v) \<in> set (split_rows df)"
  using assms by (force simp: split_rows_def)

lemma first_operator_mem:
  assumes "(p, s, v) \<in> set rows"
  shows "first_operator mapping rows s = resolve_operator mapping s"
proof -
  have "(p, s, v) \<in> set (filter (\<lambda>(p, s', v). s' = s) rows)" using assms by simp
  then obtain x xs where f: "filter (\<lambda>(p, s', v). s' = s) rows = x # xs"
    by (cases "filter (\<lambda>(p, s', v). s' = s) rows") auto
  then have "x \<in> set (filter (\<lambda>(p, s', v). s' = s) rows)" by simp
  then have "fst (snd x) = s" by auto
  with f show ?thesis
    by (cases x) (simp add: first_operator_def)
qed

lemma aggregate_keeps_suffix:
  assumes "aggregate_by_suffix mapping df = Inr (grouped, unmapped)"
    and "(d, ind, v) \<in> set df" and "extract_indicateur_suffixe ind = (p, Some s)" and "s \<noteq> ''M''"
  shows "(\<exists>dat. map_of grouped s = Some dat \<and> operator dat = resolve_operator mapping s)
         \<and> (resolve_operator mapping s = ''Other'' \<longrightarrow> s \<in> set unmapped)"
proof -
  let ?rows = "split_rows df"
  have m: "(p, s, v) \<in> set ?rows" using assms(2-4) by (rule split_rows_mem)
  have ne: "df \<noteq> []" using assms(2) by auto
  have g: "grouped = map (\<lambda>suffix.
              (suffix, \<lparr>operator = first_operator mapping ?rows suffix,
                        counters = map (\<lambda>prefix. (prefix, group_sum ?rows suffix prefix))
                          (sort (remdups (map (\<lambda>(p, s, v). p) ?rows)))\<rparr>))
              (sort (remdups (map (\<lambda>(p, s, v). s) ?rows)))"
    and u: "unmapped = sort (remdups (map (\<lambda>(p, s, v). s)
              (filter (\<lambda>(p, s, v). resolve_operator mapping s = ''Other'') ?rows)))"
    using assms(1) ne by (simp_all add: aggregate_by_suffix_def Let_def)
  have "s \<in> set (sort (remdups (map (\<lambda>(p, s, v). s) ?rows)))"
    using m by force
  then have "map_of grouped s = Some \<lparr>operator = first_operator mapping ?rows s,
                        counters = map (\<lambda>prefix. (prefix, group_sum ?rows s prefix))
                          (sort (remdups (map (\<lambda>(p, s, v). p) ?rows)))\<rparr>"
    unfolding g by (simp add: map_of_map_restrict)
  then have a: "\<exists>dat. map_of grouped s = Some dat \<and> operator dat = resolve_operator mapping s"
    using first_operator_mem[OF m] by simp
  have "resolve_operator mapping s = ''Other'' \<longrightarrow> s \<in> set unmapped"
    unfolding u using m by force
  with a show ?thesis by blast
qed

text \<open>
  C6, as amended. The operator of a suffix is the label of the first entry of the
  mapping, in its order, whose key is not empty and occurs in the suffix without regard
  to case, and \<open>Other\<close> when there is no such entry. A suffix of the data (other than
  the sentinel \<open>M\<close>) is kept in the aggregation with that operator, and a suffix that
  resolves to \<open>Other\<close> is in the set of unmapped suffixes.
\<close>

theorem operator_is_first_nonempty_match:
  "(\<forall>i<length mapping.
      key_matches (fst (mapping ! i)) s \<and> (\<forall>j<i. \<not> key_matches (fst (mapping ! j)) s)
      \<longrightarrow> resolve_operator mapping s = snd (mapping ! i))
   \<and> ((\<forall>i<length mapping. \<not> key_matches (fst (mapping ! i)) s)
      \<longrightarrow> resolve_operator mapping s = ''Other'')
   \<and> (\<forall>grouped unmapped d ind v p.
        aggregate_by_suffix mapping df = Inr (grouped, unmapped)
        \<and> (d, ind, v) \<in> set df \<and> extract_indicateur_suffixe ind = (p, Some s) \<and> s \<noteq> ''M''
        \<longrightarrow> (\<exists>dat. map_of grouped s = Some dat \<and> operator dat = resolve_operator mapping s)
            \<and> (resolve_operator mapping s = ''Other'' \<longrightarrow> s \<in> set unmapped))"
  using resolve_first[of _ mapping s] resolve_none[of mapping s] aggregate_keeps_suffix[of mapping df _ _ _ _ _ _ s]
  by blast

theorem operator_is_first_nonempty_match_witness:
  "resolve_operator [(''nw'', ''Inwi'')] ''xyz-nw'' = ''Inwi''"
proof -
  have "key_matches ''nw'' ''xyz-nw''"
    unfolding key_matches_code by code_simp
  then show ?thesis
    using operator_is_first_nonempty_match[of "[(''nw'', ''Inwi'')]" "''xyz-nw''" "[]"]
    by auto
qed

text \<open>
  The claim as stated fails for an entry with an empty key: the empty string occurs in
  every suffix, but the guard \<open>if k\<close> skips the entry.
\<close>

theorem empty_key_never_matches:
  "str_lower ''zzz'' = [] @ str_lower [] @ ''zzz'' \<and> resolve_operator [([], ''X'')] ''zzz'' = ''Other''"
  by code_simp

lemma unmatched_suffix_example:
  "resolve_operator [(''nw'', ''Inwi'')] ''zzz'' = ''Other''
   \<and> aggregate_by_suffix [(''nw'', ''Inwi'')] [(''2024-03-18 00:05:00'', ''VoiproITRALAC.zzz'', Some 4)]
       = Inr ([(''zzz'', \<lparr>operator = ''Other'', counters = [(''VoiproITRALAC'', 4)]\<rparr>)], [''zzz''])"
  by code_simp

subsection \<open>Inserting detail rows\<close>

text \<open>A detail row all of whose KPI values are \<open>None\<close>.\<close>

definition all_null :: "detail_row \<Rightarrow> bool" where
  "all_null row = list_all (\<lambda>(kpi, v). v = None) (kpi_values row)"

lemma valid_kpis_empty: "valid_kpis row = [] \<longleftrightarrow> all_null row"
  by (auto simp: valid_kpis_def all_null_def filter_empty_conv list_all_iff)

lemma list_ex_not_all_null:
  "list_ex (\<lambda>(kpi, v). v \<noteq> None) (kpi_values row) \<longleftrightarrow> \<not> all_null row"
  by (auto simp: all_null_def list_all_iff list_ex_iff)

lemma valid_lookup:
  assumes "distinct (map fst al)" and "(k, v) \<in> set al"
  shows "(case map_of (filter (\<lambda>(kpi, v). v \<noteq> None) al) k of Some x \<Rightarrow> x | None \<Rightarrow> None) = v"
proof (cases v)
  case None
  have "map_of (filter (\<lambda>(kpi, v). v \<noteq> None) al) k = None"
  proof (rule ccontr)
    assume "map_of (filter (\<lambda>(kpi, v). v \<noteq> None) al) k \<noteq> None"
    then obtain x where "map_of (filter (\<lambda>(kpi, v). v \<noteq> None) al) k = Some x" by auto
    then have "(k, x) \<in> set (filter (\<lambda>(kpi, v). v \<noteq> None) al)" by (rule map_of_SomeD)
    then have "(k, x) \<in> set al" "x \<noteq> None" by auto
    with assms None show False by (metis eq_key_imp_eq_value)
  qed
  with None show ?thesis by simp
next
  case (Some x)
  have "map_of al k = Some v" using assms by simp
  then have "map_of (filter (\<lambda>(kpi, v). v \<noteq> None) al) k = Some v"
    using Some by (intro map_of_filter_in) auto
  then show ?thesis by simp
qed

lemma row_values_all:
  assumes "distinct (map fst kpi_configs)" and "kpi_values row = calculate_kpis cs kpi_configs"
  shows "row_values kpi_configs row
           = (kpi_id row, row_operator row, row_suffix row, map snd (kpi_values row))"
proof -
  have k: "map fst (kpi_values row) = map fst kpi_configs"
    using assms(2) by (simp add: calculate_kpis_def case_prod_unfold)
  then have d: "distinct (map fst (kpi_values row))" using assms(1) by simp
  have "map (\<lambda>kpi. case map_of (valid_kpis row) kpi of Some v \<Rightarrow> v | None \<Rightarrow> None)
          (map fst (kpi_values row)) = map snd (kpi_values row)"
    unfolding map_map valid_kpis_def
    by (rule map_cong[OF refl]) (use valid_lookup[OF d] in \<open>auto simp: case_prod_unfold\<close>)
  then show ?thesis by (simp add: row_values_def k)
qed

text \<open>
  C4, as amended. For a batch of rows that hold the KPI values of the table group (as
  \<open>process\<close> buffers them): a row whose every KPI value is null is not inserted and
  is logged; the statement names every KPI column of the group, and the tuple of an
  inserted row carries all its KPI values in column order, a null value as NULL; no
  statement is executed when every row is dropped. The buffering of \<open>process\<close>
  already keeps the rows with all values null out of the buffer and logs them.
\<close>

theorem null_kpis_inserted_as_null:
  assumes "map_of tables table_name = Some kpi_configs"
    and "distinct (map fst kpi_configs)"
    and "\<forall>row \<in> set batch. \<exists>cs. kpi_values row = calculate_kpis cs kpi_configs"
  shows "insert_kpi_details tables table_name batch
           = Inr (if list_all all_null batch then None
                  else Some \<lparr>into_table = table_name,
                         columns = [''kpi_id'', ''operator'', ''suffix''] @ map fst kpi_configs,
                         params = map (\<lambda>row. (kpi_id row, row_operator row, row_suffix row,
                                               map snd (kpi_values row)))
                                    (filter (\<lambda>row. \<not> all_null row) batch)\<rparr>,
                  filter all_null batch)
         \<and> list_all (\<lambda>row. \<not> all_null row) (fst (buffer_suffixes summary_id kpi_configs suffix_rows))
         \<and> list_all all_null (snd (buffer_suffixes summary_id kpi_configs suffix_rows))"
proof -
  have v: "map (row_values kpi_configs) (filter (\<lambda>row. \<not> all_null row) batch)
         = map (\<lambda>row. (kpi_id row, row_operator row, row_suffix row, map snd (kpi_values row)))
             (filter (\<lambda>row. \<not> all_null row) batch)"
    by (rule map_cong[OF refl]) (use assms(2,3) row_values_all in auto)
  have e: "filter (\<lambda>row. \<not> all_null row) batch = [] \<longleftrightarrow> list_all all_null batch"
    by (auto simp: filter_empty_conv list_all_iff)
  have "insert_kpi_details tables table_name batch
           = Inr (if list_all all_null batch then None
                  else Some \<lparr>into_table = table_name,
                         columns = [''kpi_id'', ''operator'', ''suffix''] @ map fst kpi_configs,
                         params = map (\<lambda>row. (kpi_id row, row_operator row, row_suffix row,
                                               map snd (kpi_values row)))
                                    (filter (\<lambda>row. \<not> all_null row) batch)\<rparr>,
                  filter all_null batch)"
    using assms(1) v e by (simp add: insert_kpi_details_def Let_def valid_kpis_empty)
  moreover have "list_all (\<lambda>row. \<not> all_null row) (fst (buffer_suffixes summary_id kpi_configs suffix_rows))"
    by (auto simp: buffer_suffixes_def Let_def list_all_iff list_ex_iff all_null_def)
  moreover have "list_all all_null (snd (buffer_suffixes summary_id kpi_configs suffix_rows))"
    by (auto simp: buffer_suffixes_def Let_def list_all_iff list_ex_iff all_null_def)
  ultimately show ?thesis by blast
qed

definition mgw_row :: detail_row where
  "mgw_row = \<lparr>kpi_id = 1, row_operator = ''Other'', row_suffix = ''mgw1'',
      kpi_values = calculate_kpis [(''pmRtpReceivedPktsHi'', 1), (''pmRtpReceivedPktsLo'', 5)] mgw_kpis\<rparr>"

lemma mgw_row_values:
  "kpi_values mgw_row =
     [(''RateOfLowJitterStream'', None), (''UseOfLicence'', None), (''LatePktsRatio'', None),
      (''LatePktsVoIp'', None), (''MediaStreamChannelUtilisationRate'', None), (''IPQoS'', None),
      (''PktLoss'', Some 0), (''pmRtpReceivedPkts'', Some 2147483653), (''TotalBwForSig'', None),
      (''NbIPTermination'', Some 0), (''traffic_load'', Some 0)]"
  by code_simp

text \<open>
  The claim as stated fails: the columns of the null KPIs are named in the insert, with
  NULL as their parameter. Here the row holds the MGW KPIs of a suffix with only the two
  halves of the received packets.
\<close>

theorem null_column_is_not_omitted:
  "insert_kpi_details tables_mgw ''mgw_kpis'' [mgw_row]
     = Inr (Some \<lparr>into_table = ''mgw_kpis'',
              columns = [''kpi_id'', ''operator'', ''suffix'', ''RateOfLowJitterStream'',
                ''UseOfLicence'', ''LatePktsRatio'', ''LatePktsVoIp'',
                ''MediaStreamChannelUtilisationRate'', ''IPQoS'', ''PktLoss'',
                ''pmRtpReceivedPkts'', ''TotalBwForSig'', ''NbIPTermination'', ''traffic_load''],
              params = [(1, ''Other'', ''mgw1'',
                [None, None, None, None, None, None, Some 0, Some 2147483653, None, Some 0,
                 Some 0])]\<rparr>, [])"
  by code_simp

theorem null_kpis_inserted_as_null_witness:
  "fst (projr (insert_kpi_details tables_mgw ''mgw_kpis'' [mgw_row]))
     = Some \<lparr>into_table = ''mgw_kpis'',
              columns = [''kpi_id'', ''operator'', ''suffix''] @ map fst mgw_kpis,
              params = [(1, ''Other'', ''mgw1'',
                [None, None, None, None, None, None, Some 0, Some 2147483653, None, Some 0,
                 Some 0])]\<rparr>"
proof -
  have "map_of tables_mgw ''mgw_kpis'' = Some mgw_kpis"
    by (simp add: tables_mgw_def)
  moreover have "distinct (map fst mgw_kpis)"
    by (simp add: mgw_kpis_def)
  moreover have "\<forall>row \<in> set [mgw_row]. \<exists>cs. kpi_values row = calculate_kpis cs mgw_kpis"
    by (auto simp: mgw_row_def)
  ultimately show ?thesis
    using null_kpis_inserted_as_null[of tables_mgw "''mgw_kpis''" mgw_kpis "[mgw_row]" 0 "[]"]
    by (simp add: all_null_def mgw_row_values) (simp add: mgw_row_def)
qed


subsection \<open>The matcher on the expressions of the Table Selector\<close>



















































subsection \<open>The date of a week\<close>







lemma midnight_cutoff: "((d0, 0 :: nat) \<le> (d :: int, 0 :: nat)) = (d0 \<le> d)"
  by (auto simp: less_eq_prod_def)



subsection \<open>The selection\<close>






















end
